theory Spec2Isabelle
  imports Complex_Main "HOL-Library.AList"
begin

section \<open>The pulse-sequence sampling engine of \<^verbatim>\<open>logic/sequence_generator_logic.py\<close>\<close>

text \<open>
  The theory embeds the class \<^verbatim>\<open>SequenceGeneratorLogic\<close>: the analysis pass
  \<^verbatim>\<open>_analyze_block_ensemble\<close>, the samplers \<^verbatim>\<open>sample_pulse_block_ensemble\<close> and
  \<^verbatim>\<open>sample_pulse_sequence\<close>, the loaders \<^verbatim>\<open>load_ensemble\<close>, \<^verbatim>\<open>load_sequence\<close>,
  \<^verbatim>\<open>save_sequence\<close> and \<^verbatim>\<open>generate_predefined_sequence\<close>.

  Conventions.
  \<^item> Python's unbounded integers are \<open>int\<close>; lengths and loop counters that the code
    obtains from \<^verbatim>\<open>len\<close>, \<^verbatim>\<open>range\<close> or \<^verbatim>\<open>enumerate\<close> are \<open>nat\<close>. The numpy
    \<^verbatim>\<open>dtype=int\<close> arrays are lists of \<open>int\<close>: the 64-bit wrap-around of numpy is
    not modelled.
  \<^item> A float64 value is an element of a type \<open>'f\<close> of the sort \<open>{plus,times,inverse}\<close>.
    These are the syntactic classes that only provide the symbols \<open>+\<close>, \<open>*\<close> and \<open>/\<close>;
    they carry no law, so nothing proved below uses a property of real arithmetic that
    IEEE doubles lack. The remaining float operations are the fields of \<open>fl_ops\<close>.
  \<^item> An exception is a value \<open>Inl e\<close>. A function that changes the generator returns the
    pair of its outcome and the generator as the exception or the return left it.
\<close>

subsection \<open>Exceptions\<close>

datatype error =
    KeyError
  | IndexError
  | ValueError
  | OverflowError
  | TypeError
  | UnboundLocalError
  | ExternalError string

definition ebind :: "error + 'a \<Rightarrow> ('a \<Rightarrow> error + 'b) \<Rightarrow> error + 'b" where
  "ebind m f = (case m of Inl e \<Rightarrow> Inl e | Inr x \<Rightarrow> f x)"

text \<open>A \<^verbatim>\<open>for\<close> loop over a list whose body may raise: the first exception ends it.\<close>

fun foldM :: "('a \<Rightarrow> 'b \<Rightarrow> error + 'b) \<Rightarrow> 'a list \<Rightarrow> 'b \<Rightarrow> error + 'b" where
  "foldM f [] s = Inr s"
| "foldM f (x # xs) s = ebind (f x s) (foldM f xs)"

subsection \<open>Float operations\<close>

text \<open>
  \<open>of_int_f\<close> is the conversion of an integer to float64 (as in \<^verbatim>\<open>rep_no * increment_s\<close>
  and \<^verbatim>\<open>np.arange(n, dtype='float64')\<close>), \<open>np_rint\<close> is \<^verbatim>\<open>np.rint\<close>, \<open>py_int\<close> is
  \<^verbatim>\<open>int(.)\<close> of a float, which raises on NaN and on the infinities, and \<open>np_float32\<close>
  is \<^verbatim>\<open>np.float32\<close>, the narrowing to single precision (a single is kept as the double
  of the same value).
\<close>

record 'f fl_ops =
  of_int_f :: "int \<Rightarrow> 'f"
  np_rint :: "'f \<Rightarrow> 'f"
  py_int :: "'f \<Rightarrow> error + int"
  np_float32 :: "'f \<Rightarrow> 'f"

subsection \<open>Data model\<close>

text \<open>
  Modelled from the spec: the classes \<^verbatim>\<open>PulseBlockElement\<close>, \<^verbatim>\<open>PulseBlock\<close>,
  \<^verbatim>\<open>PulseBlockEnsemble\<close> and \<^verbatim>\<open>PulseSequence\<close> of \<^verbatim>\<open>logic/pulse_objects.py\<close> are not
  among the sources. The records hold the attributes that the generator reads, with the
  meaning section 3 of the specification gives them. \<open>'p\<close> is the parameter bundle of
  one analog channel, opaque to the sampler.
\<close>

record ('f, 'p) PulseBlockElement =
  init_length_s :: 'f
  increment_s :: 'f
  digital_high :: "bool list"
  pulse_function :: "string list"
  parameters :: "'p list"

record ('f, 'p) PulseBlock =
  block_name :: string
  element_list :: "('f, 'p) PulseBlockElement list"

record ('f, 'p) PulseBlockEnsemble =
  ens_name :: string
  block_list :: "(('f, 'p) PulseBlock \<times> int) list"
  ens_analog_channels :: nat
  ens_digital_channels :: nat
  ens_sample_rate :: "'f option"
  ens_amplitude_dict :: "(string \<rightharpoonup> 'f) option"
  ens_activation_config :: "string list option"
  ens_laser_channel :: "string option"
  rotating_frame :: bool

subsection \<open>The analysis pass\<close>

text \<open>
  \<^verbatim>\<open>element_length_s = init_length_s + (rep_no * increment_s)\<close> and
  \<^verbatim>\<open>int(np.rint(element_length_s * self.sample_rate))\<close>; the analysis pass and the
  sampler both contain these two lines.
\<close>

definition element_length_bins ::
  "'f::{plus,times,inverse} fl_ops \<Rightarrow> 'f \<Rightarrow> ('f, 'p) PulseBlockElement \<Rightarrow> nat \<Rightarrow> error + int" where
  "element_length_bins fo sample_rate block_element rep_no =
     (let element_length_s =
            init_length_s block_element + (of_int_f fo (int rep_no) * increment_s block_element)
      in py_int fo (np_rint fo (element_length_s * sample_rate)))"

text \<open>\<^verbatim>\<open>np.zeros(n, dtype=int)\<close> raises ValueError on a negative dimension.\<close>

definition np_zeros :: "int \<Rightarrow> error + int list" where
  "np_zeros n = (if n < 0 then Inl ValueError else Inr (replicate (nat n) 0))"

text \<open>\<^verbatim>\<open>a[i] = v\<close> on a one-dimensional array, for an index that is not negative.\<close>

definition np_setitem :: "'a list \<Rightarrow> nat \<Rightarrow> 'a \<Rightarrow> error + 'a list" where
  "np_setitem a i v = (if i < length a then Inr (a[i := v]) else Inl IndexError)"

text \<open>The body of the innermost loop: the state is \<open>(tmp_length_bins, state_index)\<close>.\<close>

definition analyze_element ::
  "'f::{plus,times,inverse} fl_ops \<Rightarrow> 'f \<Rightarrow> nat \<Rightarrow> ('f, 'p) PulseBlockElement \<Rightarrow>
     int list \<times> nat \<Rightarrow> error + int list \<times> nat" where
  "analyze_element fo sample_rate rep_no block_element s =
     (case s of (tmp_length_bins, state_index) \<Rightarrow>
        ebind (element_length_bins fo sample_rate block_element rep_no) (\<lambda>v.
        ebind (np_setitem tmp_length_bins state_index v) (\<lambda>tmp'.
        Inr (tmp', state_index + 1))))"

text \<open>
  The body of the loop over \<^verbatim>\<open>ensemble.block_list\<close>: the state is
  \<open>(state_length_bins_arr, number_of_elements)\<close>.
\<close>

definition analyze_block ::
  "'f::{plus,times,inverse} fl_ops \<Rightarrow> 'f \<Rightarrow> ('f, 'p) PulseBlock \<times> int \<Rightarrow>
     int list \<times> int \<Rightarrow> error + int list \<times> int" where
  "analyze_block fo sample_rate br s =
     (case br of (block, reps) \<Rightarrow> case s of (state_length_bins_arr, number_of_elements) \<Rightarrow>
        (let number_of_elements' =
               number_of_elements + (reps + 1) * int (length (element_list block));
             num_state_changes = (reps + 1) * int (length (element_list block))
         in ebind (np_zeros num_state_changes) (\<lambda>tmp_length_bins.
            ebind (foldM (\<lambda>rep_no. foldM (analyze_element fo sample_rate rep_no)
                                      (element_list block))
                         [0..<nat (reps + 1)] (tmp_length_bins, 0)) (\<lambda>(tmp', state_index).
            Inr (state_length_bins_arr @ tmp', number_of_elements')))))"

text \<open>
  \<^verbatim>\<open>_analyze_block_ensemble\<close> returns
  \<open>(number_of_samples, number_of_elements, number_of_states, state_length_bins_arr)\<close>.
\<close>

definition analyze_block_ensemble ::
  "'f::{plus,times,inverse} fl_ops \<Rightarrow> 'f \<Rightarrow> ('f, 'p) PulseBlockEnsemble \<Rightarrow>
     error + int \<times> int \<times> nat \<times> int list" where
  "analyze_block_ensemble fo sample_rate ensemble =
     ebind (foldM (analyze_block fo sample_rate) (block_list ensemble) ([], 0))
       (\<lambda>(state_length_bins_arr, number_of_elements).
          Inr (sum_list state_length_bins_arr, number_of_elements,
               length state_length_bins_arr, state_length_bins_arr))"

text \<open>
  The order in which both passes visit the elements: for each entry of
  \<^verbatim>\<open>block_list\<close>, for each \<^verbatim>\<open>rep_no in range(reps+1)\<close>, for each element of the
  block. An entry is the pair of the repetition index and the element.
\<close>

definition block_traversal ::
  "('f, 'p) PulseBlock \<times> int \<Rightarrow> (nat \<times> ('f, 'p) PulseBlockElement) list" where
  "block_traversal br =
     (case br of (block, reps) \<Rightarrow>
        concat (map (\<lambda>rep_no. map (Pair rep_no) (element_list block)) [0..<nat (reps + 1)]))"

definition traversal ::
  "('f, 'p) PulseBlockEnsemble \<Rightarrow> (nat \<times> ('f, 'p) PulseBlockElement) list" where
  "traversal ensemble = concat (map block_traversal (block_list ensemble))"

subsection \<open>Strings and numpy arrays\<close>

text \<open>\<^verbatim>\<open>s.startswith(p)\<close> and \<^verbatim>\<open>sub in s\<close> on strings.\<close>

fun startswith :: "string \<Rightarrow> string \<Rightarrow> bool" where
  "startswith s [] = True"
| "startswith [] (p # ps) = False"
| "startswith (c # cs) (p # ps) = (c = p \<and> startswith cs ps)"

fun str_contains :: "string \<Rightarrow> string \<Rightarrow> bool" where
  "str_contains sub [] = (sub = [])"
| "str_contains sub (c # cs) = (startswith (c # cs) sub \<or> str_contains sub cs)"

text \<open>
  A two-dimensional numpy array: \<open>rows\<close> has one list of \<open>ncols\<close> cells for each channel.
  A cell is \<open>None\<close> as long as nothing was written to it: \<^verbatim>\<open>np.empty\<close> leaves the
  content of a fresh array unspecified.
\<close>

record 'a ndarray =
  ncols :: nat
  rows :: "'a option list list"

definition np_empty :: "nat \<Rightarrow> int \<Rightarrow> error + 'a ndarray" where
  "np_empty r c =
     (if c < 0 then Inl ValueError
      else Inr \<lparr>ncols = nat c, rows = replicate r (replicate (nat c) None)\<rparr>)"

definition np_full :: "int \<Rightarrow> 'a \<Rightarrow> error + 'a list" where
  "np_full n v = (if n < 0 then Inl ValueError else Inr (replicate (nat n) v))"

text \<open>
  Assigning a one-dimensional array to a row or to a slice of \<open>m\<close> cells: the lengths
  agree, or the value has one entry, which numpy repeats; anything else is a ValueError.
\<close>

definition np_broadcast :: "'a list \<Rightarrow> nat \<Rightarrow> error + 'a list" where
  "np_broadcast v m =
     (if length v = m then Inr v
      else if length v = 1 then Inr (replicate m (hd v))
      else Inl ValueError)"

text \<open>\<^verbatim>\<open>a[i] = v\<close> for a row index \<open>i\<close> that is not negative.\<close>

definition setitem_row :: "'a ndarray \<Rightarrow> nat \<Rightarrow> 'a list \<Rightarrow> error + 'a ndarray" where
  "setitem_row a i v =
     (if length (rows a) \<le> i then Inl IndexError
      else ebind (np_broadcast v (ncols a)) (\<lambda>v'.
           Inr (a\<lparr>rows := (rows a)[i := map Some v']\<rparr>)))"

text \<open>
  The bounds of the slice \<^verbatim>\<open>lo:hi\<close> on an axis of \<open>w\<close> cells: a negative bound counts
  from the end, and both are clipped to the axis.
\<close>

definition py_slice :: "nat \<Rightarrow> int \<Rightarrow> int \<Rightarrow> nat \<times> nat" where
  "py_slice w lo hi =
     (let clip = (\<lambda>x. if x < 0 then max (x + int w) 0 else min x (int w));
          start = clip lo; stop = clip hi
      in (nat start, nat (max start stop)))"

text \<open>\<^verbatim>\<open>a[i, lo:hi] = v\<close> for a row index \<open>i\<close> that is not negative.\<close>

definition setitem_slice ::
  "'a ndarray \<Rightarrow> nat \<Rightarrow> int \<Rightarrow> int \<Rightarrow> 'a list \<Rightarrow> error + 'a ndarray" where
  "setitem_slice a i lo hi v =
     (if length (rows a) \<le> i then Inl IndexError
      else case py_slice (ncols a) lo hi of (start, stop) \<Rightarrow>
           ebind (np_broadcast v (stop - start)) (\<lambda>v'.
           Inr (a\<lparr>rows := (rows a)[i := take start (rows a ! i) @ map Some v'
                                              @ drop stop (rows a ! i)]\<rparr>)))"

text \<open>\<^verbatim>\<open>xs[i]\<close> on a Python list, for an index that is not negative.\<close>

definition py_getitem :: "'a list \<Rightarrow> nat \<Rightarrow> error + 'a" where
  "py_getitem xs i = (if i < length xs then Inr (xs ! i) else Inl IndexError)"

text \<open>\<^verbatim>\<open>d[k]\<close> on a dictionary.\<close>

definition dict_getitem :: "('k \<rightharpoonup> 'v) \<Rightarrow> 'k \<Rightarrow> error + 'v" where
  "dict_getitem d k = (case d k of None \<Rightarrow> Inl KeyError | Some v \<Rightarrow> Inr v)"

text \<open>
  \<^verbatim>\<open>(offset_bin + np.arange(element_length_bins, dtype='float64')) / self.sample_rate\<close>;
  \<^verbatim>\<open>np.arange\<close> of a negative number is the empty array.
\<close>

definition np_arange :: "'f fl_ops \<Rightarrow> int \<Rightarrow> 'f list" where
  "np_arange fo n = map (\<lambda>i. of_int_f fo (int i)) [0..<nat n]"

definition time_array :: "'f::{plus,times,inverse} fl_ops \<Rightarrow> int \<Rightarrow> int \<Rightarrow> 'f \<Rightarrow> 'f list" where
  "time_array fo offset_bin length_bins sample_rate =
     map (\<lambda>x. x / sample_rate) (map (\<lambda>x. of_int_f fo offset_bin + x)
       (np_arange fo length_bins))"

subsection \<open>The generator\<close>

text \<open>
  Modelled from the spec: a sequence holds its ordered \<^verbatim>\<open>ensemble_param_list\<close>, the
  derived collection of the distinct ensemble names it refers to (the keys of
  \<^verbatim>\<open>different_ensembles_dict\<close>, in the order of iteration), its
  \<^verbatim>\<open>rotating_frame\<close> flag, the cache \<^verbatim>\<open>sampled_ensembles\<close> and the metadata that
  \<^verbatim>\<open>load_sequence\<close> reads. The step parameters are a dictionary with values of an
  opaque type \<open>'q\<close>, kept as an association list in insertion order.
\<close>

record ('f, 'p, 'q) PulseSequence =
  seq_name :: string
  ensemble_param_list :: "(('f, 'p) PulseBlockEnsemble \<times> (string \<times> 'q) list) list"
  different_ensembles_dict :: "string list"
  seq_rotating_frame :: bool
  sampled_ensembles :: "string \<rightharpoonup> string list"
  seq_sample_rate :: "'f option"
  seq_amplitude_dict :: "(string \<rightharpoonup> 'f) option"
  seq_activation_config :: "string list option"
  seq_laser_channel :: "string option"

text \<open>
  A value of the dictionary that describes one step of a sequence: the list of files
  under the key \<^verbatim>\<open>'name'\<close>, or a step parameter.
\<close>

datatype 'q step_value = Files "string list" | Param 'q

text \<open>
  The two kinds of call of an entry of \<^verbatim>\<open>self._write_to_file\<close>: a waveform writer gets
  \<^verbatim>\<open>(name, analog_samples, digital_samples, total_number_of_samples, is_first_chunk,
  is_last_chunk)\<close>, a sequence writer gets \<^verbatim>\<open>(name, sequence_param_dict_list)\<close>.
\<close>

datatype ('f, 'q) writer_call =
    WaveformCall string "'f ndarray" "bool ndarray" int bool bool
  | SequenceCall string "(string \<times> 'q step_value) list list"

text \<open>
  What lies outside the generator object: the calls of writers made so far, and the
  names of the files in \<^verbatim>\<open>self.waveform_dir\<close> and in \<^verbatim>\<open>self.sequence_dir\<close>.
\<close>

record ('f, 'q) host =
  writer_calls :: "('f, 'q) writer_call list"
  waveform_dir :: "string list"
  sequence_dir :: "string list"

text \<open>
  The writers (\<^verbatim>\<open>logic/samples_write_methods.py\<close>) and the sampling functions
  (\<^verbatim>\<open>logic/sampling_functions.py\<close>) are not among the sources: the two dictionaries
  \<^verbatim>\<open>self._write_to_file\<close> and \<^verbatim>\<open>self._math_func\<close> are parameters \<open>W\<close> and \<open>MF\<close> of
  the model. A writer sees its arguments and the host, may change the directories, and
  returns the list of created files or raises. A sampling function maps the time array and
  the parameters of its channel to an array of values, or raises.
\<close>

type_synonym ('f, 'q) writer =
  "('f, 'q) writer_call \<Rightarrow> ('f, 'q) host \<Rightarrow> (error + string list) \<times> ('f, 'q) host"

type_synonym ('f, 'p) math_func = "'f list \<Rightarrow> 'p \<Rightarrow> error + 'f list"

text \<open>
  A call of a writer: a missing format key is a KeyError; the call is recorded, whatever
  the writer does.
\<close>

definition call_writer ::
  "(string \<rightharpoonup> ('f, 'q) writer) \<Rightarrow> string \<Rightarrow> ('f, 'q) writer_call \<Rightarrow> ('f, 'q) host \<Rightarrow>
     (error + string list) \<times> ('f, 'q) host" where
  "call_writer W format c h =
     (case W format of
        None \<Rightarrow> (Inl KeyError, h)
      | Some w \<Rightarrow> (case w c h of (r, h') \<Rightarrow>
                    (r, h'\<lparr>writer_calls := writer_calls h @ [c]\<rparr>)))"

text \<open>
  The state of the module (\<^verbatim>\<open>getState\<close>, \<^verbatim>\<open>lock\<close>, \<^verbatim>\<open>unlock\<close> of the base class),
  the messages of \<^verbatim>\<open>self.log\<close> and the emitted signals. A message keeps the arguments
  that are formatted into it, but not a measured time; a signal keeps a name that it
  carries, but no dictionary or object.
\<close>

datatype module_state = Idle | Locked

datatype log_entry =
    Info_old_files_deleted string "string list"
  | Error_channel_mismatch string nat nat nat nat
  | Info_time_ensemble_whole
  | Info_time_ensemble_chunkwise
  | Error_busy string
  | Warning_old_sequence_deleted string "string list"
  | Info_time_sequence
  | Error_generation_failed string
  | Error_ensemble_not_found string
  | Error_sequence_not_found string

datatype signal =
    SigSettingsUpdated
  | SigCurrentEnsembleUpdated
  | SigCurrentSequenceUpdated
  | SigSequenceDictUpdated
  | SigSampleEnsembleComplete string
  | SigSampleSequenceComplete string
  | SigPredefinedSequenceGenerated string

text \<open>
  The attributes of a \<^verbatim>\<open>SequenceGeneratorLogic\<close> object. \<open>sampling_calls\<close> is a history
  variable: every entry into \<^verbatim>\<open>sample_pulse_block_ensemble\<close> appends its arguments
  \<open>(ensemble_name, offset_bin, name_tag)\<close>, and no function reads it.
  \<open>sequence_dict_file\<close> is the content of the file \<^verbatim>\<open>sequence_dict.sequ\<close>.
\<close>

record ('f, 'p, 'q) generator =
  module_state :: module_state
  analog_channels :: nat
  digital_channels :: nat
  activation_config :: "string list"
  laser_channel :: "string option"
  amplitude_dict :: "string \<rightharpoonup> 'f"
  sample_rate :: 'f
  waveform_format :: string
  sequence_format :: string
  saved_pulse_block_ensembles :: "string \<rightharpoonup> ('f, 'p) PulseBlockEnsemble"
  saved_pulse_sequences :: "string \<rightharpoonup> ('f, 'p, 'q) PulseSequence"
  current_ensemble :: "('f, 'p) PulseBlockEnsemble option"
  current_sequence :: "('f, 'p, 'q) PulseSequence option"
  sequence_dict_file :: "string \<rightharpoonup> ('f, 'p, 'q) PulseSequence"
  log :: "log_entry list"
  signals :: "signal list"
  sampling_calls :: "(string \<times> int \<times> string) list"
  host :: "('f, 'q) host"

subsection \<open>Statements that may raise and change a state\<close>

text \<open>
  A computation on a state \<open>'s\<close> returns its outcome and the state it leaves; after an
  exception this is the state at the moment of the \<^verbatim>\<open>raise\<close>.
\<close>

definition sreturn :: "'a \<Rightarrow> 's \<Rightarrow> (error + 'a) \<times> 's" where
  "sreturn x s = (Inr x, s)"

definition slift :: "error + 'a \<Rightarrow> 's \<Rightarrow> (error + 'a) \<times> 's" where
  "slift r s = (r, s)"

definition sbind ::
  "('s \<Rightarrow> (error + 'a) \<times> 's) \<Rightarrow> ('a \<Rightarrow> 's \<Rightarrow> (error + 'b) \<times> 's) \<Rightarrow> 's \<Rightarrow> (error + 'b) \<times> 's" where
  "sbind m f s = (case m s of (Inl e, s') \<Rightarrow> (Inl e, s') | (Inr x, s') \<Rightarrow> f x s')"

fun sfoldM ::
  "('a \<Rightarrow> 'b \<Rightarrow> 's \<Rightarrow> (error + 'b) \<times> 's) \<Rightarrow> 'a list \<Rightarrow> 'b \<Rightarrow> 's \<Rightarrow> (error + 'b) \<times> 's" where
  "sfoldM f [] b = sreturn b"
| "sfoldM f (x # xs) b = sbind (f x b) (sfoldM f xs)"

subsection \<open>The ensemble sampler\<close>

text \<open>
  The local variables of \<^verbatim>\<open>sample_pulse_block_ensemble\<close> that live across the loop.
  \<open>created_files\<close> is \<open>None\<close> as long as the variable is unbound. A variable that only
  one of the two modes binds before the loop (the arrays and \<open>entry_ind\<close> in the
  monolithic mode, the flags and \<open>element_count\<close> in the chunkwise mode) is read in that
  mode only; in the other mode its initial value below is never read.
\<close>

record 'f locals =
  offset_bin :: int
  analog_samples :: "'f ndarray"
  digital_samples :: "bool ndarray"
  entry_ind :: int
  is_first_chunk :: bool
  is_last_chunk :: bool
  element_count :: int
  created_files :: "string list option"

text \<open>
  \<^verbatim>\<open>np.float32(self._math_func[func_name](time_arr, parameters[i]) /
  self.amplitude_dict[ana_chnl_names[i]])\<close>, in the order of evaluation of Python.
\<close>

definition analog_values ::
  "'f::{plus,times,inverse} fl_ops \<Rightarrow> (string \<rightharpoonup> ('f, 'p) math_func) \<Rightarrow> (string \<rightharpoonup> 'f) \<Rightarrow>
     string list \<Rightarrow> 'f list \<Rightarrow> 'p list \<Rightarrow> nat \<Rightarrow> string \<Rightarrow> error + 'f list" where
  "analog_values fo MF amplitudes ana_chnl_names time_arr params i func_name =
     ebind (dict_getitem MF func_name) (\<lambda>f.
     ebind (py_getitem params i) (\<lambda>p.
     ebind (f time_arr p) (\<lambda>y.
     ebind (py_getitem ana_chnl_names i) (\<lambda>chnl.
     ebind (dict_getitem amplitudes chnl) (\<lambda>amplitude.
     Inr (map (\<lambda>x. np_float32 fo (x / amplitude)) y))))))"

text \<open>
  The two \<^verbatim>\<open>for i, ... in enumerate(...)\<close> loops of the chunkwise branch:
  \<^verbatim>\<open>digital_samples[i] = np.full(element_length_bins, state, dtype=bool)\<close> and
  \<^verbatim>\<open>analog_samples[i] = np.float32(...)\<close>.
\<close>

definition fill_digital_chunk :: "int \<Rightarrow> bool list \<Rightarrow> bool ndarray \<Rightarrow> error + bool ndarray" where
  "fill_digital_chunk n states a =
     foldM (\<lambda>(i, state) a. ebind (np_full n state) (\<lambda>v. setitem_row a i v))
       (enumerate 0 states) a"

definition fill_analog_chunk ::
  "'f::{plus,times,inverse} fl_ops \<Rightarrow> (string \<rightharpoonup> ('f, 'p) math_func) \<Rightarrow> (string \<rightharpoonup> 'f) \<Rightarrow>
     string list \<Rightarrow> 'f list \<Rightarrow> 'p list \<Rightarrow> string list \<Rightarrow> 'f ndarray \<Rightarrow> error + 'f ndarray" where
  "fill_analog_chunk fo MF amplitudes ana_chnl_names time_arr params funcs a =
     foldM (\<lambda>(i, func_name) a.
              ebind (analog_values fo MF amplitudes ana_chnl_names time_arr params i func_name)
                (\<lambda>v. setitem_row a i v))
       (enumerate 0 funcs) a"

text \<open>
  The same two loops of the monolithic branch, which write to
  \<^verbatim>\<open>[i, entry_ind:entry_ind+element_length_bins]\<close>.
\<close>

definition fill_digital_whole ::
  "int \<Rightarrow> int \<Rightarrow> bool list \<Rightarrow> bool ndarray \<Rightarrow> error + bool ndarray" where
  "fill_digital_whole ind n states a =
     foldM (\<lambda>(i, state) a. ebind (np_full n state) (\<lambda>v. setitem_slice a i ind (ind + n) v))
       (enumerate 0 states) a"

definition fill_analog_whole ::
  "'f::{plus,times,inverse} fl_ops \<Rightarrow> (string \<rightharpoonup> ('f, 'p) math_func) \<Rightarrow> (string \<rightharpoonup> 'f) \<Rightarrow>
     string list \<Rightarrow> 'f list \<Rightarrow> 'p list \<Rightarrow> int \<Rightarrow> int \<Rightarrow> string list \<Rightarrow> 'f ndarray \<Rightarrow>
     error + 'f ndarray" where
  "fill_analog_whole fo MF amplitudes ana_chnl_names time_arr params ind n funcs a =
     foldM (\<lambda>(i, func_name) a.
              ebind (analog_values fo MF amplitudes ana_chnl_names time_arr params i func_name)
                (\<lambda>v. setitem_slice a i ind (ind + n) v))
       (enumerate 0 funcs) a"

text \<open>\<^verbatim>\<open>ana_chnl_names = [chnl for chnl in self.activation_config if 'a_ch' in chnl]\<close>\<close>

definition analog_channel_names :: "('f, 'p, 'q) generator \<Rightarrow> string list" where
  "analog_channel_names g = filter (str_contains ''a_ch'') (activation_config g)"

text \<open>
  The branch \<^verbatim>\<open>if chunkwise and write_to_file\<close> of the loop body, for an element of
  \<open>n\<close> bins with the time array \<open>time_arr\<close>.
\<close>

definition chunk_step ::
  "(string \<rightharpoonup> ('f, 'q) writer) \<Rightarrow> (string \<rightharpoonup> ('f, 'p) math_func) \<Rightarrow>
     'f::{plus,times,inverse} fl_ops \<Rightarrow> ('f, 'p, 'q) generator \<Rightarrow> ('f, 'p) PulseBlockEnsemble \<Rightarrow>
     int \<Rightarrow> int \<Rightarrow> string \<Rightarrow> int \<Rightarrow> 'f list \<Rightarrow> ('f, 'p) PulseBlockElement \<Rightarrow> 'f locals \<Rightarrow>
     ('f, 'q) host \<Rightarrow> (error + 'f locals) \<times> ('f, 'q) host" where
  "chunk_step W MF fo g ensemble number_of_samples number_of_elements name_tag n time_arr
       block_element loc =
     (let element_count' = element_count loc + 1;
          is_last_chunk' = (if element_count' = number_of_elements then True
                            else is_last_chunk loc)
      in sbind (slift (np_empty (ens_analog_channels ensemble) n)) (\<lambda>a0.
         sbind (slift (np_empty (ens_digital_channels ensemble) n)) (\<lambda>d0.
         sbind (slift (fill_digital_chunk n (digital_high block_element) d0)) (\<lambda>d.
         sbind (slift (fill_analog_chunk fo MF (amplitude_dict g) (analog_channel_names g)
                         time_arr (parameters block_element)
                         (pulse_function block_element) a0)) (\<lambda>a.
         sbind (call_writer W (waveform_format g)
                  (WaveformCall (ens_name ensemble @ name_tag) a d number_of_samples
                     (is_first_chunk loc) is_last_chunk')) (\<lambda>files.
         sreturn (loc\<lparr>element_count := element_count', is_last_chunk := is_last_chunk',
                      analog_samples := a, digital_samples := d,
                      created_files := Some files, is_first_chunk := False\<rparr>)))))))"

text \<open>The \<^verbatim>\<open>else\<close> branch of the loop body.\<close>

definition whole_step ::
  "(string \<rightharpoonup> ('f, 'p) math_func) \<Rightarrow> 'f::{plus,times,inverse} fl_ops \<Rightarrow>
     ('f, 'p, 'q) generator \<Rightarrow> int \<Rightarrow> 'f list \<Rightarrow> ('f, 'p) PulseBlockElement \<Rightarrow> 'f locals \<Rightarrow>
     error + 'f locals" where
  "whole_step MF fo g n time_arr block_element loc =
     ebind (fill_digital_whole (entry_ind loc) n (digital_high block_element)
              (digital_samples loc)) (\<lambda>d.
     ebind (fill_analog_whole fo MF (amplitude_dict g) (analog_channel_names g) time_arr
              (parameters block_element) (entry_ind loc) n
              (pulse_function block_element) (analog_samples loc)) (\<lambda>a.
     Inr (loc\<lparr>digital_samples := d, analog_samples := a, entry_ind := entry_ind loc + n\<rparr>)))"

text \<open>The body of the innermost loop, lines 768 to 817.\<close>

definition sample_element ::
  "(string \<rightharpoonup> ('f, 'q) writer) \<Rightarrow> (string \<rightharpoonup> ('f, 'p) math_func) \<Rightarrow>
     'f::{plus,times,inverse} fl_ops \<Rightarrow> ('f, 'p, 'q) generator \<Rightarrow> ('f, 'p) PulseBlockEnsemble \<Rightarrow>
     int \<Rightarrow> int \<Rightarrow> string \<Rightarrow> bool \<Rightarrow> bool \<Rightarrow> nat \<Rightarrow> ('f, 'p) PulseBlockElement \<Rightarrow> 'f locals \<Rightarrow>
     ('f, 'q) host \<Rightarrow> (error + 'f locals) \<times> ('f, 'q) host" where
  "sample_element W MF fo g ensemble number_of_samples number_of_elements name_tag
       write_to_file chunkwise rep_no block_element loc =
     sbind (slift (element_length_bins fo (sample_rate g) block_element rep_no)) (\<lambda>n.
     (let time_arr = time_array fo (offset_bin loc) n (sample_rate g)
      in sbind (if chunkwise \<and> write_to_file
                then chunk_step W MF fo g ensemble number_of_samples number_of_elements
                       name_tag n time_arr block_element loc
                else slift (whole_step MF fo g n time_arr block_element loc)) (\<lambda>loc'.
         sreturn (if rotating_frame ensemble
                  then loc'\<lparr>offset_bin := offset_bin loc' + n\<rparr> else loc'))))"

text \<open>The three nested loops, lines 763 to 817.\<close>

definition sample_elements ::
  "(string \<rightharpoonup> ('f, 'q) writer) \<Rightarrow> (string \<rightharpoonup> ('f, 'p) math_func) \<Rightarrow>
     'f::{plus,times,inverse} fl_ops \<Rightarrow> ('f, 'p, 'q) generator \<Rightarrow> ('f, 'p) PulseBlockEnsemble \<Rightarrow>
     int \<Rightarrow> int \<Rightarrow> string \<Rightarrow> bool \<Rightarrow> bool \<Rightarrow> 'f locals \<Rightarrow>
     ('f, 'q) host \<Rightarrow> (error + 'f locals) \<times> ('f, 'q) host" where
  "sample_elements W MF fo g ensemble number_of_samples number_of_elements name_tag
       write_to_file chunkwise =
     sfoldM (\<lambda>(block, reps).
       sfoldM (\<lambda>rep_no.
         sfoldM (sample_element W MF fo g ensemble number_of_samples number_of_elements
                   name_tag write_to_file chunkwise rep_no)
           (element_list block))
         [0..<nat (reps + 1)])
       (block_list ensemble)"

text \<open>
  Lines 721 to 731: the files of \<^verbatim>\<open>self.waveform_dir\<close> whose name starts with
  \<^verbatim>\<open>ensemble_name + '_ch'\<close> are removed, and reported when there are any.
\<close>

definition delete_sampled_files ::
  "string \<Rightarrow> ('f, 'p, 'q) generator \<Rightarrow> ('f, 'p, 'q) generator" where
  "delete_sampled_files ensemble_name g =
     (let filename_list =
            filter (\<lambda>f. startswith f (ensemble_name @ ''_ch'')) (waveform_dir (host g));
          g' = g\<lparr>host := (host g)\<lparr>waveform_dir :=
                  filter (\<lambda>f. \<not> startswith f (ensemble_name @ ''_ch''))
                    (waveform_dir (host g))\<rparr>\<rparr>
      in if length filename_list \<noteq> 0
         then g'\<lparr>log := log g' @ [Info_old_files_deleted ensemble_name filename_list]\<rparr>
         else g')"

text \<open>The local variables before the loop, lines 750 to 760.\<close>

definition initial_locals ::
  "('f, 'p) PulseBlockEnsemble \<Rightarrow> int \<Rightarrow> bool \<Rightarrow> bool \<Rightarrow> int \<Rightarrow> error + 'f locals" where
  "initial_locals ensemble number_of_samples write_to_file chunkwise offset =
     (if chunkwise \<and> write_to_file
      then Inr \<lparr>offset_bin = offset,
                analog_samples = \<lparr>ncols = 0, rows = []\<rparr>,
                digital_samples = \<lparr>ncols = 0, rows = []\<rparr>,
                entry_ind = 0,
                is_first_chunk = True, is_last_chunk = False, element_count = 0,
                created_files = None\<rparr>
      else ebind (np_empty (ens_analog_channels ensemble) number_of_samples) (\<lambda>a.
           ebind (np_empty (ens_digital_channels ensemble) number_of_samples) (\<lambda>d.
           Inr \<lparr>offset_bin = offset, analog_samples = a, digital_samples = d,
                entry_ind = 0,
                is_first_chunk = False, is_last_chunk = False, element_count = 0,
                created_files = None\<rparr>)))"

text \<open>
  \<^verbatim>\<open>if not sequence_sampling_in_progress: self.unlock();
  self.sigSampleEnsembleComplete.emit(ensemble_name)\<close>
\<close>

definition unlock_and_announce ::
  "bool \<Rightarrow> string \<Rightarrow> ('f, 'p, 'q) generator \<Rightarrow> ('f, 'p, 'q) generator" where
  "unlock_and_announce sequence_sampling_in_progress ensemble_name g =
     (if \<not> sequence_sampling_in_progress
      then g\<lparr>module_state := Idle,
              signals := signals g @ [SigSampleEnsembleComplete ensemble_name]\<rparr>
      else g)"

text \<open>
  The value that \<^verbatim>\<open>sample_pulse_block_ensemble\<close> returns:
  \<open>(analog_samples, digital_samples, created_files, offset_bin)\<close>, where \<open>None\<close> in one
  of the first two places is the empty list \<^verbatim>\<open>[]\<close>.
\<close>

type_synonym 'f sampling_result =
  "'f ndarray option \<times> bool ndarray option \<times> string list \<times> int"

text \<open>Lines 819 to 855: what follows the loop.\<close>

definition finish_sampling ::
  "(string \<rightharpoonup> ('f, 'q) writer) \<Rightarrow> ('f, 'p) PulseBlockEnsemble \<Rightarrow> string \<Rightarrow> int \<Rightarrow> string \<Rightarrow>
     bool \<Rightarrow> bool \<Rightarrow> bool \<Rightarrow> 'f locals \<Rightarrow> ('f, 'p, 'q) generator \<Rightarrow>
     (error + 'f sampling_result) \<times> ('f, 'p, 'q) generator" where
  "finish_sampling W ensemble ensemble_name number_of_samples name_tag write_to_file chunkwise
       sequence_sampling_in_progress loc g =
     (if \<not> write_to_file then
        (let g' = unlock_and_announce sequence_sampling_in_progress ensemble_name
                    (g\<lparr>log := log g @ [Info_time_ensemble_whole]\<rparr>)
         in case created_files loc of
              None \<Rightarrow> (Inl UnboundLocalError, g')
            | Some files \<Rightarrow>
                (Inr (Some (analog_samples loc), Some (digital_samples loc), files,
                      offset_bin loc), g'))
      else if chunkwise then
        (let g' = unlock_and_announce sequence_sampling_in_progress ensemble_name
                    (g\<lparr>log := log g @ [Info_time_ensemble_chunkwise]\<rparr>)
         in case created_files loc of
              None \<Rightarrow> (Inl UnboundLocalError, g')
            | Some files \<Rightarrow> (Inr (None, None, files, offset_bin loc), g'))
      else
        (case call_writer W (waveform_format g)
                (WaveformCall (ens_name ensemble @ name_tag) (analog_samples loc)
                   (digital_samples loc) number_of_samples True True) (host g) of
           (Inl e, h) \<Rightarrow> (Inl e, g\<lparr>host := h\<rparr>)
         | (Inr files, h) \<Rightarrow>
             (Inr (None, None, files, offset_bin loc),
              unlock_and_announce sequence_sampling_in_progress ensemble_name
                (g\<lparr>host := h, log := log g @ [Info_time_ensemble_whole]\<rparr>))))"

text \<open>
  \<^verbatim>\<open>sample_pulse_block_ensemble(ensemble_name, write_to_file, chunkwise, offset_bin,
  name_tag)\<close>. \<open>enter_sampling\<close> is its beginning, lines 714 to 731: the entry into the
  history, the lock of an idle module and the removal of old files; it yields the flag
  \<open>sequence_sampling_in_progress\<close>. The early return on a mismatch of the channel
  numbers is the tuple \<^verbatim>\<open>[], [], [''], 0\<close>.
\<close>

definition enter_sampling ::
  "string \<Rightarrow> bool \<Rightarrow> int \<Rightarrow> string \<Rightarrow> ('f, 'p, 'q) generator \<Rightarrow>
     bool \<times> ('f, 'p, 'q) generator" where
  "enter_sampling ensemble_name write_to_file offset name_tag g0 =
     (let g1 = g0\<lparr>sampling_calls := sampling_calls g0 @ [(ensemble_name, offset, name_tag)]\<rparr>;
          sequence_sampling_in_progress = (module_state g1 \<noteq> Idle);
          g2 = (if module_state g1 = Idle then g1\<lparr>module_state := Locked\<rparr> else g1);
          g = (if write_to_file then delete_sampled_files ensemble_name g2 else g2)
      in (sequence_sampling_in_progress, g))"

definition sample_pulse_block_ensemble ::
  "(string \<rightharpoonup> ('f, 'q) writer) \<Rightarrow> (string \<rightharpoonup> ('f, 'p) math_func) \<Rightarrow>
     'f::{plus,times,inverse} fl_ops \<Rightarrow> string \<Rightarrow> bool \<Rightarrow> bool \<Rightarrow> int \<Rightarrow> string \<Rightarrow>
     ('f, 'p, 'q) generator \<Rightarrow> (error + 'f sampling_result) \<times> ('f, 'p, 'q) generator" where
  "sample_pulse_block_ensemble W MF fo ensemble_name write_to_file chunkwise offset name_tag g0 =
     (case enter_sampling ensemble_name write_to_file offset name_tag g0 of
        (sequence_sampling_in_progress, g) \<Rightarrow>
      case saved_pulse_block_ensembles g ensemble_name of
           None \<Rightarrow> (Inl KeyError, g)
         | Some ensemble \<Rightarrow>
             if digital_channels g \<noteq> ens_digital_channels ensemble
                \<or> analog_channels g \<noteq> ens_analog_channels ensemble
             then (Inr (None, None, [''''], 0),
                   g\<lparr>log := log g @ [Error_channel_mismatch ensemble_name (analog_channels g)
                         (digital_channels g) (ens_analog_channels ensemble)
                         (ens_digital_channels ensemble)]\<rparr>)
             else
               (case analyze_block_ensemble fo (sample_rate g) ensemble of
                  Inl e \<Rightarrow> (Inl e, g)
                | Inr (number_of_samples, number_of_elements, number_of_states,
                       state_length_bins_arr) \<Rightarrow>
                    (case initial_locals ensemble number_of_samples write_to_file chunkwise
                            offset of
                       Inl e \<Rightarrow> (Inl e, g)
                     | Inr loc0 \<Rightarrow>
                         (case sample_elements W MF fo g ensemble number_of_samples
                                 number_of_elements name_tag write_to_file chunkwise loc0
                                 (host g) of
                            (Inl e, h) \<Rightarrow> (Inl e, g\<lparr>host := h\<rparr>)
                          | (Inr loc, h) \<Rightarrow>
                              finish_sampling W ensemble ensemble_name number_of_samples
                                name_tag write_to_file chunkwise
                                sequence_sampling_in_progress loc (g\<lparr>host := h\<rparr>)))))"

subsection \<open>The sequence sampler\<close>

text \<open>\<^verbatim>\<open>str(n)\<close> of a natural number and \<^verbatim>\<open>s.zfill(w)\<close> of a string without sign.\<close>

function str_nat :: "nat \<Rightarrow> string" where
  "str_nat n =
     (if n < 10 then [''0123456789'' ! n]
      else str_nat (n div 10) @ [''0123456789'' ! (n mod 10)])"
  by pat_completeness auto
termination
  by (relation "measure (\<lambda>n. n)") auto

definition zfill :: "nat \<Rightarrow> string \<Rightarrow> string" where
  "zfill w s = replicate (w - length s) CHR ''0'' @ s"

text \<open>
  \<^verbatim>\<open>_save_sequences_to_file\<close> writes the dictionary to a temporary file and renames it;
  a failure of the file system is not modelled. \<^verbatim>\<open>save_sequence(name, sequence)\<close>.
\<close>

definition save_sequences_to_file :: "('f, 'p, 'q) generator \<Rightarrow> ('f, 'p, 'q) generator" where
  "save_sequences_to_file g = g\<lparr>sequence_dict_file := saved_pulse_sequences g\<rparr>"

definition save_sequence ::
  "string \<Rightarrow> ('f, 'p, 'q) PulseSequence \<Rightarrow> ('f, 'p, 'q) generator \<Rightarrow> ('f, 'p, 'q) generator" where
  "save_sequence name sequence g =
     (let sequence' = sequence\<lparr>seq_name := name\<rparr>;
          g1 = g\<lparr>current_sequence := Some sequence'\<rparr>;
          g2 = g1\<lparr>saved_pulse_sequences := (saved_pulse_sequences g1)(name \<mapsto> sequence')\<rparr>;
          g3 = save_sequences_to_file g2
      in g3\<lparr>signals := signals g3 @ [SigSequenceDictUpdated, SigCurrentSequenceUpdated]\<rparr>)"

text \<open>
  \<^verbatim>\<open>temp_dict = dict(); temp_dict['name'] = created_files; temp_dict.update(seq_param)\<close>
\<close>

definition step_dict :: "string list \<Rightarrow> (string \<times> 'q) list \<Rightarrow> (string \<times> 'q step_value) list" where
  "step_dict files seq_param =
     fold (\<lambda>(k, v). AList.update k (Param v)) seq_param [(''name'', Files files)]"

text \<open>
  The body of the loop of the rotating-frame branch, lines 915 to 944; the state is
  \<open>(ensemble_index, offset_bin, sampled_ensembles, sequence_param_dict_list)\<close>.
\<close>

definition sample_rotating_step ::
  "(string \<rightharpoonup> ('f, 'q) writer) \<Rightarrow> (string \<rightharpoonup> ('f, 'p) math_func) \<Rightarrow>
     'f::{plus,times,inverse} fl_ops \<Rightarrow> bool \<Rightarrow> bool \<Rightarrow>
     ('f, 'p) PulseBlockEnsemble \<times> (string \<times> 'q) list \<Rightarrow>
     nat \<times> int \<times> (string \<rightharpoonup> string list) \<times> (string \<times> 'q step_value) list list \<Rightarrow>
     ('f, 'p, 'q) generator \<Rightarrow>
     (error + nat \<times> int \<times> (string \<rightharpoonup> string list) \<times> (string \<times> 'q step_value) list list)
       \<times> ('f, 'p, 'q) generator" where
  "sample_rotating_step W MF fo write_to_file chunkwise entry s =
     (case entry of (ensemble_obj, seq_param) \<Rightarrow>
      case s of (ensemble_index, offset, sampled, sequence_param_dict_list) \<Rightarrow>
        (let name_tag = ''_'' @ zfill 3 (str_nat ensemble_index)
         in sbind (sample_pulse_block_ensemble W MF fo (ens_name ensemble_obj) write_to_file
                     chunkwise offset name_tag)
              (\<lambda>(dummy1, dummy2, files, offset_bin_return).
                 sreturn (ensemble_index + 1, offset_bin_return,
                          sampled(ens_name ensemble_obj @ name_tag \<mapsto> files),
                          sequence_param_dict_list @ [step_dict files seq_param]))))"

text \<open>
  The body of the first loop of the other branch, lines 948 to 959; the state is
  \<open>sampled_ensembles\<close>.
\<close>

definition sample_distinct_step ::
  "(string \<rightharpoonup> ('f, 'q) writer) \<Rightarrow> (string \<rightharpoonup> ('f, 'p) math_func) \<Rightarrow>
     'f::{plus,times,inverse} fl_ops \<Rightarrow> bool \<Rightarrow> bool \<Rightarrow> string \<Rightarrow>
     (string \<rightharpoonup> string list) \<Rightarrow> ('f, 'p, 'q) generator \<Rightarrow>
     (error + (string \<rightharpoonup> string list)) \<times> ('f, 'p, 'q) generator" where
  "sample_distinct_step W MF fo write_to_file chunkwise ensemble_name sampled =
     sbind (\<lambda>g. (dict_getitem (saved_pulse_block_ensembles g) ensemble_name, g))
       (\<lambda>ensemble_obj.
     sbind (sample_pulse_block_ensemble W MF fo ensemble_name write_to_file chunkwise 0 '''')
       (\<lambda>(dummy1, dummy2, files, offset).
     sreturn (sampled(ensemble_name \<mapsto> files))))"

text \<open>The body of the second loop of that branch, lines 963 to 970.\<close>

definition reuse_step ::
  "(string \<rightharpoonup> string list) \<Rightarrow> ('f, 'p) PulseBlockEnsemble \<times> (string \<times> 'q) list \<Rightarrow>
     (string \<times> 'q step_value) list list \<Rightarrow> error + (string \<times> 'q step_value) list list" where
  "reuse_step sampled entry sequence_param_dict_list =
     (case entry of (ensemble_obj, seq_param) \<Rightarrow>
        ebind (dict_getitem sampled (ens_name ensemble_obj)) (\<lambda>files.
        Inr (sequence_param_dict_list @ [step_dict files seq_param])))"

text \<open>Lines 888 to 898, on \<^verbatim>\<open>self.sequence_dir\<close> and \<^verbatim>\<open>sequence_name + '.seq'\<close>.\<close>

definition delete_sequence_files ::
  "string \<Rightarrow> ('f, 'p, 'q) generator \<Rightarrow> ('f, 'p, 'q) generator" where
  "delete_sequence_files sequence_name g =
     (let filename_list =
            filter (\<lambda>f. startswith f (sequence_name @ ''.seq'')) (sequence_dir (host g));
          g' = g\<lparr>host := (host g)\<lparr>sequence_dir :=
                  filter (\<lambda>f. \<not> startswith f (sequence_name @ ''.seq''))
                    (sequence_dir (host g))\<rparr>\<rparr>
      in if length filename_list \<noteq> 0
         then g'\<lparr>log := log g' @ [Warning_old_sequence_deleted sequence_name filename_list]\<rparr>
         else g')"

text \<open>
  Lines 912 to 970: the two branches, which return
  \<open>(sampled_ensembles, sequence_param_dict_list)\<close>.
\<close>

definition sample_sequence_entries ::
  "(string \<rightharpoonup> ('f, 'q) writer) \<Rightarrow> (string \<rightharpoonup> ('f, 'p) math_func) \<Rightarrow>
     'f::{plus,times,inverse} fl_ops \<Rightarrow> bool \<Rightarrow> bool \<Rightarrow> ('f, 'p, 'q) PulseSequence \<Rightarrow>
     ('f, 'p, 'q) generator \<Rightarrow>
     (error + (string \<rightharpoonup> string list) \<times> (string \<times> 'q step_value) list list)
       \<times> ('f, 'p, 'q) generator" where
  "sample_sequence_entries W MF fo write_to_file chunkwise sequence_obj =
     (if seq_rotating_frame sequence_obj
      then sbind (sfoldM (sample_rotating_step W MF fo write_to_file chunkwise)
                    (ensemble_param_list sequence_obj) (0, 0, Map.empty, []))
             (\<lambda>(ensemble_index, offset, sampled, sequence_param_dict_list).
                sreturn (sampled, sequence_param_dict_list))
      else sbind (sfoldM (sample_distinct_step W MF fo write_to_file chunkwise)
                    (different_ensembles_dict sequence_obj) Map.empty)
             (\<lambda>sampled.
           sbind (slift (foldM (reuse_step sampled) (ensemble_param_list sequence_obj) []))
             (\<lambda>sequence_param_dict_list.
                sreturn (sampled, sequence_param_dict_list))))"

text \<open>\<^verbatim>\<open>sample_pulse_sequence(sequence_name, write_to_file, chunkwise)\<close>\<close>

definition sample_pulse_sequence ::
  "(string \<rightharpoonup> ('f, 'q) writer) \<Rightarrow> (string \<rightharpoonup> ('f, 'p) math_func) \<Rightarrow>
     'f::{plus,times,inverse} fl_ops \<Rightarrow> string \<Rightarrow> bool \<Rightarrow> bool \<Rightarrow>
     ('f, 'p, 'q) generator \<Rightarrow> (error + unit) \<times> ('f, 'p, 'q) generator" where
  "sample_pulse_sequence W MF fo sequence_name write_to_file chunkwise g0 =
     (if module_state g0 \<noteq> Idle
      then (Inr (), g0\<lparr>log := log g0 @ [Error_busy sequence_name]\<rparr>)
      else
        (let g1 = g0\<lparr>module_state := Locked\<rparr>;
             g = (if write_to_file then delete_sequence_files sequence_name g1 else g1)
         in case saved_pulse_sequences g sequence_name of
              None \<Rightarrow> (Inl KeyError, g)
            | Some sequence_obj \<Rightarrow>
                (case sample_sequence_entries W MF fo write_to_file chunkwise sequence_obj g of
                   (Inl e, g') \<Rightarrow> (Inl e, g')
                 | (Inr (sampled, sequence_param_dict_list), g') \<Rightarrow>
                     (let g'' = save_sequence sequence_name
                                  (sequence_obj\<lparr>sampled_ensembles := sampled\<rparr>) g'
                      in case call_writer W (sequence_format g'')
                                (SequenceCall sequence_name sequence_param_dict_list)
                                (host g'') of
                           (Inl e, h) \<Rightarrow> (Inl e, g''\<lparr>host := h\<rparr>)
                         | (Inr files, h) \<Rightarrow>
                             (Inr (),
                              g''\<lparr>host := h,
                                  log := log g'' @ [Info_time_sequence],
                                  signals := signals g'' @ [SigSampleSequenceComplete sequence_name],
                                  module_state := Idle\<rparr>)))))"

subsection \<open>Loading assets and predefined generators\<close>

text \<open>\<^verbatim>\<open>load_ensemble(name)\<close> and \<^verbatim>\<open>load_sequence(name)\<close>\<close>

definition load_ensemble :: "string \<Rightarrow> ('f, 'p, 'q) generator \<Rightarrow> ('f, 'p, 'q) generator" where
  "load_ensemble name g =
     (case saved_pulse_block_ensembles g name of
        None \<Rightarrow> g\<lparr>log := log g @ [Error_ensemble_not_found name]\<rparr>
      | Some ensemble \<Rightarrow>
          (let g1 = (case ens_sample_rate ensemble of
                       None \<Rightarrow> g | Some v \<Rightarrow> g\<lparr>sample_rate := v\<rparr>);
               g2 = (case ens_amplitude_dict ensemble of
                       None \<Rightarrow> g1 | Some v \<Rightarrow> g1\<lparr>amplitude_dict := v\<rparr>);
               g3 = (case ens_activation_config ensemble of
                       None \<Rightarrow> g2 | Some v \<Rightarrow> g2\<lparr>activation_config := v\<rparr>);
               g4 = (case ens_laser_channel ensemble of
                       None \<Rightarrow> g3 | Some v \<Rightarrow> g3\<lparr>laser_channel := Some v\<rparr>);
               g5 = g4\<lparr>signals := signals g4 @ [SigSettingsUpdated]\<rparr>;
               g6 = g5\<lparr>current_ensemble := Some ensemble\<rparr>
           in g6\<lparr>signals := signals g6 @ [SigCurrentEnsembleUpdated]\<rparr>))"

definition load_sequence :: "string \<Rightarrow> ('f, 'p, 'q) generator \<Rightarrow> ('f, 'p, 'q) generator" where
  "load_sequence name g =
     (case saved_pulse_sequences g name of
        None \<Rightarrow> g\<lparr>log := log g @ [Error_sequence_not_found name]\<rparr>
      | Some sequence \<Rightarrow>
          (let g1 = (case seq_sample_rate sequence of
                       None \<Rightarrow> g | Some v \<Rightarrow> g\<lparr>sample_rate := v\<rparr>);
               g2 = (case seq_amplitude_dict sequence of
                       None \<Rightarrow> g1 | Some v \<Rightarrow> g1\<lparr>amplitude_dict := v\<rparr>);
               g3 = (case seq_activation_config sequence of
                       None \<Rightarrow> g2 | Some v \<Rightarrow> g2\<lparr>activation_config := v\<rparr>);
               g4 = (case seq_laser_channel sequence of
                       None \<Rightarrow> g3 | Some v \<Rightarrow> g3\<lparr>laser_channel := Some v\<rparr>);
               g5 = g4\<lparr>signals := signals g4 @ [SigSettingsUpdated]\<rparr>;
               g6 = g5\<lparr>current_sequence := Some sequence\<rparr>
           in g6\<lparr>signals := signals g6 @ [SigCurrentSequenceUpdated]\<rparr>))"

text \<open>
  \<^verbatim>\<open>generate_predefined_sequence(predefined_sequence_name, args)\<close>. The dictionary
  \<^verbatim>\<open>self.generate_methods\<close> is the parameter \<open>GM\<close>: it is \<open>None\<close> before the activation
  of the module, and its callables are the functions of the directory
  \<^verbatim>\<open>logic/predefined_methods\<close>, which is not among the sources. A callable gets the
  arguments and the generator, and returns or raises, with the generator as it left it.
\<close>

type_synonym ('a, 'f, 'p, 'q) generate_method =
  "'a list \<Rightarrow> ('f, 'p, 'q) generator \<Rightarrow> (error + unit) \<times> ('f, 'p, 'q) generator"

definition generate_predefined_sequence ::
  "(string \<rightharpoonup> ('a, 'f, 'p, 'q) generate_method) option \<Rightarrow> string \<Rightarrow> 'a list \<Rightarrow>
     ('f, 'p, 'q) generator \<Rightarrow> (error + unit) \<times> ('f, 'p, 'q) generator" where
  "generate_predefined_sequence GM predefined_sequence_name args g =
     (case GM of
        None \<Rightarrow> (Inl TypeError, g)
      | Some generate_methods \<Rightarrow>
          (case generate_methods predefined_sequence_name of
             None \<Rightarrow> (Inl KeyError, g)
           | Some gen_method \<Rightarrow>
               (case gen_method args g of
                  (Inl e, g') \<Rightarrow>
                    (Inr (), g'\<lparr>log := log g' @ [Error_generation_failed predefined_sequence_name]\<rparr>)
                | (Inr u, g') \<Rightarrow>
                    (Inr (), g'\<lparr>signals := signals g'
                                   @ [SigPredefinedSequenceGenerated predefined_sequence_name]\<rparr>))))"

subsection \<open>A concrete generator\<close>

text \<open>
  An instance of the float operations over the real numbers: rounding to the nearest
  integer, halves to the even one, as \<^verbatim>\<open>np.rint\<close> does, \<^verbatim>\<open>int(.)\<close> truncating towards
  zero, and singles that keep the value. It only serves to run the definitions on examples.
\<close>

definition rint_real :: "real \<Rightarrow> int" where
  "rint_real x =
     (let f = \<lfloor>x\<rfloor>; d = x - of_int f
      in if d < 1 / 2 then f else if 1 / 2 < d then f + 1 else if even f then f else f + 1)"

definition real_ops :: "real fl_ops" where
  "real_ops = \<lparr>of_int_f = of_int,
               np_rint = (\<lambda>x. of_int (rint_real x)),
               py_int = (\<lambda>x. Inr (if 0 \<le> x then \<lfloor>x\<rfloor> else \<lceil>x\<rceil>)),
               np_float32 = (\<lambda>x. x)\<rparr>"

text \<open>
  Two sampling functions: a constant voltage, and a ramp that is proportional to the time.
  The parameter bundle of a channel is one real number.
\<close>

definition ex_math_func :: "string \<rightharpoonup> (real, real) math_func" where
  "ex_math_func =
     [''DC'' \<mapsto> (\<lambda>time_arr p. Inr (map (\<lambda>t. p) time_arr)),
      ''Ramp'' \<mapsto> (\<lambda>time_arr p. Inr (map (\<lambda>t. p * t) time_arr))]"

text \<open>
  Two writers that leave the directories alone: the waveform writer reports one file
  that is named after the waveform, the sequence writer one that is named after the
  sequence.
\<close>

fun ex_writer_files :: "(real, 'q) writer_call \<Rightarrow> string list" where
  "ex_writer_files (WaveformCall name a d n is_first is_last) = [name @ ''_ch1.wfmx'']"
| "ex_writer_files (SequenceCall name steps) = [name @ ''.seqx'']"

definition ex_writers :: "string \<rightharpoonup> (real, 'q) writer" where
  "ex_writers =
     [''wfmx'' \<mapsto> (\<lambda>c h. (Inr (ex_writer_files c), h)),
      ''seqx'' \<mapsto> (\<lambda>c h. (Inr (ex_writer_files c), h))]"

text \<open>
  A block of two elements on one analog and one digital channel: two microseconds of a
  ramp with the digital channel high, then one microsecond, growing by one microsecond
  for each repetition, of a constant with the digital channel low.
\<close>

definition ex_block :: "(real, real) PulseBlock" where
  "ex_block =
     \<lparr>block_name = ''B'',
      element_list =
        [\<lparr>init_length_s = 2 / 1000000, increment_s = 0, digital_high = [True],
          pulse_function = [''Ramp''], parameters = [3]\<rparr>,
         \<lparr>init_length_s = 1 / 1000000, increment_s = 1 / 1000000, digital_high = [False],
          pulse_function = [''DC''], parameters = [1 / 2]\<rparr>]\<rparr>"

definition ex_ensemble :: "bool \<Rightarrow> (real, real) PulseBlockEnsemble" where
  "ex_ensemble rf =
     \<lparr>ens_name = ''E'', block_list = [(ex_block, 1)],
      ens_analog_channels = 1, ens_digital_channels = 1,
      ens_sample_rate = Some 1000000, ens_amplitude_dict = None,
      ens_activation_config = Some [''a_ch1'', ''d_ch1''], ens_laser_channel = None,
      rotating_frame = rf\<rparr>"

text \<open>An ensemble of the same name that declares two analog channels.\<close>

definition ex_ensemble_two_analog :: "(real, real) PulseBlockEnsemble" where
  "ex_ensemble_two_analog = (ex_ensemble True)\<lparr>ens_analog_channels := 2\<rparr>"

definition ex_host :: "(real, 'q) host" where
  "ex_host = \<lparr>writer_calls = [], waveform_dir = [], sequence_dir = []\<rparr>"

text \<open>
  A generator with one analog and one digital channel at one megasample per second
  that holds the ensemble \<open>ens\<close> under the name \<^verbatim>\<open>E\<close>, in the module state \<open>ms\<close>.
\<close>

definition ex_generator ::
  "module_state \<Rightarrow> (real, real) PulseBlockEnsemble \<Rightarrow> (real, real, 'q) generator" where
  "ex_generator ms ens =
     \<lparr>module_state = ms, analog_channels = 1, digital_channels = 1,
      activation_config = [''a_ch1'', ''d_ch1''], laser_channel = Some ''d_ch1'',
      amplitude_dict = [''a_ch1'' \<mapsto> 2], sample_rate = 1000000,
      waveform_format = ''wfmx'', sequence_format = ''seqx'',
      saved_pulse_block_ensembles = [''E'' \<mapsto> ens],
      saved_pulse_sequences = Map.empty,
      current_ensemble = None, current_sequence = None,
      sequence_dict_file = Map.empty,
      log = [], signals = [], sampling_calls = [], host = ex_host\<rparr>"

subsection \<open>What a writer call carries\<close>

text \<open>
  The arrays and the announced total of a call of a waveform writer, and the array that
  the chunks of a list of calls make up when they are put side by side: row \<open>i\<close> of
  \<open>hstack r as\<close> is the concatenation of the rows \<open>i\<close> of the arrays, for \<open>r\<close> channels.
\<close>

fun call_analog :: "('f, 'q) writer_call \<Rightarrow> 'f ndarray" where
  "call_analog (WaveformCall name a d n is_first is_last) = a"
| "call_analog (SequenceCall name steps) = \<lparr>ncols = 0, rows = []\<rparr>"

fun call_digital :: "('f, 'q) writer_call \<Rightarrow> bool ndarray" where
  "call_digital (WaveformCall name a d n is_first is_last) = d"
| "call_digital (SequenceCall name steps) = \<lparr>ncols = 0, rows = []\<rparr>"

fun call_total :: "('f, 'q) writer_call \<Rightarrow> int" where
  "call_total (WaveformCall name a d n is_first is_last) = n"
| "call_total (SequenceCall name steps) = 0"


text \<open>
  \<open>g'\<close> differs from \<open>g\<close> at most in the host, the log and the history of the sampling
  calls: the settings, the saved assets, the module state and the signals are the same.
\<close>

definition same_but_trace :: "('f, 'p, 'q) generator \<Rightarrow> ('f, 'p, 'q) generator \<Rightarrow> bool" where
  "same_but_trace g g' \<longleftrightarrow>
     module_state g' = module_state g \<and> signals g' = signals g \<and>
     analog_channels g' = analog_channels g \<and> digital_channels g' = digital_channels g \<and>
     activation_config g' = activation_config g \<and> laser_channel g' = laser_channel g \<and>
     amplitude_dict g' = amplitude_dict g \<and> sample_rate g' = sample_rate g \<and>
     waveform_format g' = waveform_format g \<and> sequence_format g' = sequence_format g \<and>
     saved_pulse_block_ensembles g' = saved_pulse_block_ensembles g \<and>
     saved_pulse_sequences g' = saved_pulse_sequences g \<and>
     current_ensemble g' = current_ensemble g \<and> current_sequence g' = current_sequence g \<and>
     sequence_dict_file g' = sequence_dict_file g"

text \<open>
  A sequence \<^verbatim>\<open>S\<close> of three steps that all refer to the ensemble \<^verbatim>\<open>E\<close>, and a
  generator that holds it. The value of a step parameter is a natural number.
\<close>

definition ex_sequence :: "bool \<Rightarrow> (real, real, nat) PulseSequence" where
  "ex_sequence rf =
     \<lparr>seq_name = ''S'',
      ensemble_param_list =
        [(ex_ensemble rf, [(''repetitions'', 1)]),
         (ex_ensemble rf, [(''repetitions'', 2)]),
         (ex_ensemble rf, [])],
      different_ensembles_dict = [''E''],
      seq_rotating_frame = rf,
      sampled_ensembles = Map.empty,
      seq_sample_rate = Some 2000000, seq_amplitude_dict = None,
      seq_activation_config = None, seq_laser_channel = Some ''d_ch2''\<rparr>"

definition ex_generator_seq ::
  "module_state \<Rightarrow> bool \<Rightarrow> (real, real, nat) generator" where
  "ex_generator_seq ms rf =
     (ex_generator ms (ex_ensemble rf))\<lparr>saved_pulse_sequences := [''S'' \<mapsto> ex_sequence rf]\<rparr>"

text \<open>
  Two predefined generator methods: one returns without doing anything, one raises.
\<close>

definition ex_generate_methods ::
  "string \<rightharpoonup> (nat, real, real, nat) generate_method" where
  "ex_generate_methods =
     [''idle'' \<mapsto> (\<lambda>args g. (Inr (), g)),
      ''broken'' \<mapsto> (\<lambda>args g. (Inl (ExternalError ''division by zero''), g))]"

section \<open>Properties\<close>

subsection \<open>Exceptions and loops\<close>

lemma ebind_Inr [simp]: "ebind (Inr x) f = f x"
  by (simp add: ebind_def)

lemma ebind_Inl [simp]: "ebind (Inl e) f = Inl e"
  by (simp add: ebind_def)

lemma ebind_eq_Inr: "ebind m f = Inr y \<longleftrightarrow> (\<exists>x. m = Inr x \<and> f x = Inr y)"
  by (cases m) auto

lemma foldM_append: "foldM f (xs @ ys) s = ebind (foldM f xs s) (foldM f ys)"
  by (induction xs arbitrary: s) (auto simp: ebind_def split: sum.splits)

lemma foldM_Cons_Inr:
  "foldM f (x # xs) s = Inr t \<longleftrightarrow> (\<exists>s1. f x s = Inr s1 \<and> foldM f xs s1 = Inr t)"
  by (simp add: ebind_eq_Inr)

text \<open>Nested loops visit the concatenation of the inner lists.\<close>

lemma foldM_nested:
  "foldM (\<lambda>x. foldM (g x) (h x)) xs s =
   foldM (\<lambda>(x, y). g x y) (concat (map (\<lambda>x. map (Pair x) (h x)) xs)) s"
proof (induction xs arbitrary: s)
  case Nil
  show ?case by simp
next
  case (Cons x xs)
  have inner: "foldM (\<lambda>(x, y). g x y) (map (Pair x) ys) t = foldM (g x) ys t" for ys t
    by (induction ys arbitrary: t) (auto simp: ebind_def split: sum.splits)
  show ?case
    by (simp add: foldM_append inner Cons.IH ebind_def split: sum.splits)
qed

subsection \<open>The analysis pass\<close>

lemma analyze_element_Inr:
  assumes "analyze_element fo sr k e (tmp, i) = Inr s1"
  obtains v where "element_length_bins fo sr e k = Inr v" "i < length tmp"
    "s1 = (tmp[i := v], Suc i)"
  using assms
  by (auto simp: analyze_element_def np_setitem_def ebind_eq_Inr split: if_splits)

text \<open>
  The two inner loops fill \<open>tmp_length_bins\<close> from \<open>state_index\<close> on, one cell for each
  visited element, in the order of the visit.
\<close>

lemma analyze_pairs_inv:
  assumes "foldM (\<lambda>(k, e). analyze_element fo sr k e) kes (tmp, i) = Inr (tmp', i')"
    and "i \<le> length tmp"
  shows "i' = i + length kes \<and> i' \<le> length tmp \<and> length tmp' = length tmp \<and>
    map Inr (take i' tmp') =
      map Inr (take i tmp) @ map (\<lambda>(k, e). element_length_bins fo sr e k) kes"
  using assms
proof (induction kes arbitrary: tmp i)
  case Nil
  then show ?case by simp
next
  case (Cons ke kes)
  obtain k e where ke: "ke = (k, e)" by (cases ke)
  from Cons.prems(1) ke obtain s1 where step: "analyze_element fo sr k e (tmp, i) = Inr s1"
    and rest0: "foldM (\<lambda>(k, e). analyze_element fo sr k e) kes s1 = Inr (tmp', i')"
    unfolding foldM_Cons_Inr by auto
  from step obtain v where v: "element_length_bins fo sr e k = Inr v"
    and i: "i < length tmp" and s1: "s1 = (tmp[i := v], Suc i)"
    by (rule analyze_element_Inr)
  from rest0 s1
  have rest: "foldM (\<lambda>(k, e). analyze_element fo sr k e) kes (tmp[i := v], Suc i)
                = Inr (tmp', i')"
    by simp
  have le: "Suc i \<le> length (tmp[i := v])" using i by simp
  have tk: "take (Suc i) (tmp[i := v]) = take i tmp @ [v]"
    using i by (simp add: take_Suc_conv_app_nth)
  from Cons.IH[OF rest le] have
    a: "i' = Suc i + length kes" and b: "i' \<le> length (tmp[i := v])"
    and c: "length tmp' = length (tmp[i := v])"
    and d: "map Inr (take i' tmp') = map Inr (take (Suc i) (tmp[i := v])) @
              map (\<lambda>(k, e). element_length_bins fo sr e k) kes"
    by blast+
  from a b c d show ?case by (simp add: tk v ke)
qed

lemma length_block_traversal:
  "length (block_traversal (block, reps)) = nat (reps + 1) * length (element_list block)"
  by (simp add: block_traversal_def length_concat comp_def sum_list_triv)

lemma analyze_block_Inr:
  assumes "analyze_block fo sr (block, reps) (arr, ne) = Inr (arr', ne')"
  shows "ne' = ne + (reps + 1) * int (length (element_list block)) \<and>
         int (length arr') = int (length arr) + (reps + 1) * int (length (element_list block)) \<and>
         map Inr arr' = map Inr arr @
           map (\<lambda>(k, e). element_length_bins fo sr e k) (block_traversal (block, reps))"
proof -
  let ?n = "(reps + 1) * int (length (element_list block))"
  from assms obtain tmp' i' where nonneg: "0 \<le> ?n"
    and run: "foldM (\<lambda>rep_no. foldM (analyze_element fo sr rep_no) (element_list block))
                [0..<nat (reps + 1)] (replicate (nat ?n) 0, 0) = Inr (tmp', i')"
    and res: "arr' = arr @ tmp'" "ne' = ne + ?n"
    by (auto simp: analyze_block_def np_zeros_def Let_def ebind_eq_Inr split: if_splits)
  from run have flat:
    "foldM (\<lambda>(k, e). analyze_element fo sr k e) (block_traversal (block, reps))
       (replicate (nat ?n) 0, 0) = Inr (tmp', i')"
    by (simp add: foldM_nested block_traversal_def)
  have "i' = 0 + length (block_traversal (block, reps)) \<and>
      i' \<le> length (replicate (nat ?n) (0::int)) \<and>
      length tmp' = length (replicate (nat ?n) (0::int)) \<and>
      map Inr (take i' tmp') = map Inr (take 0 (replicate (nat ?n) (0::int))) @
        map (\<lambda>(k, e). element_length_bins fo sr e k) (block_traversal (block, reps))"
    by (rule analyze_pairs_inv[OF flat]) simp
  then have
    a: "i' = 0 + length (block_traversal (block, reps))"
    and c: "length tmp' = length (replicate (nat ?n) (0::int))"
    and d0: "map Inr (take i' tmp') = map Inr (take 0 (replicate (nat ?n) (0::int))) @
              map (\<lambda>(k, e). element_length_bins fo sr e k) (block_traversal (block, reps))"
    by blast+
  from d0 have d: "map Inr (take i' tmp') =
              map (\<lambda>(k, e). element_length_bins fo sr e k) (block_traversal (block, reps))"
    by simp
  have len: "nat ?n = nat (reps + 1) * length (element_list block)"
  proof (cases "0 \<le> reps + 1")
    case True
    then show ?thesis by (simp add: nat_mult_distrib)
  next
    case False
    with nonneg have "length (element_list block) = 0"
      by (smt (verit) mult_less_0_iff of_nat_0_le_iff of_nat_eq_0_iff)
    with False show ?thesis by simp
  qed
  have "i' = length tmp'" using a c len by (simp add: length_block_traversal)
  with d have "map Inr tmp' =
      map (\<lambda>(k, e). element_length_bins fo sr e k) (block_traversal (block, reps))" by simp
  with res c nonneg show ?thesis by simp
qed

lemma analyze_blocks_Inr:
  assumes "foldM (analyze_block fo sr) bl (arr, ne) = Inr (arr', ne')"
  shows "ne' = ne + sum_list (map (\<lambda>(block, reps).
                      (reps + 1) * int (length (element_list block))) bl) \<and>
         int (length arr') = int (length arr) +
            sum_list (map (\<lambda>(block, reps). (reps + 1) * int (length (element_list block))) bl) \<and>
         map Inr arr' = map Inr arr @
           map (\<lambda>(k, e). element_length_bins fo sr e k) (concat (map block_traversal bl))"
  using assms
proof (induction bl arbitrary: arr ne)
  case Nil
  then show ?case by simp
next
  case (Cons br bl)
  obtain block reps where br: "br = (block, reps)" by (cases br)
  from Cons.prems br obtain arr1 ne1 where
    step: "analyze_block fo sr (block, reps) (arr, ne) = Inr (arr1, ne1)"
    and rest: "foldM (analyze_block fo sr) bl (arr1, ne1) = Inr (arr', ne')"
    unfolding foldM_Cons_Inr by auto
  from analyze_block_Inr[OF step] Cons.IH[OF rest] show ?case
    by (simp add: br)
qed

text \<open>The result of the analysis pass, in terms of the order of the visit.\<close>

lemma analyze_block_ensemble_Inr:
  assumes "analyze_block_ensemble fo sr ens = Inr (ns, ne, nst, arr)"
  shows "ne = sum_list (map (\<lambda>(block, reps).
                   (reps + 1) * int (length (element_list block))) (block_list ens))"
    and "map Inr arr = map (\<lambda>(k, e). element_length_bins fo sr e k) (traversal ens)"
    and "ns = sum_list arr" and "int nst = ne"
proof -
  from assms obtain ne0 where
    run: "foldM (analyze_block fo sr) (block_list ens) ([], 0) = Inr (arr, ne0)"
    and r: "ns = sum_list arr" "ne = ne0" "nst = length arr"
    by (auto simp: analyze_block_ensemble_def ebind_eq_Inr)
  from analyze_blocks_Inr[OF run] r
  show "ne = sum_list (map (\<lambda>(block, reps).
                  (reps + 1) * int (length (element_list block))) (block_list ens))"
    and "map Inr arr = map (\<lambda>(k, e). element_length_bins fo sr e k) (traversal ens)"
    and "ns = sum_list arr" and "int nst = ne"
    by (simp_all add: traversal_def)
qed




subsection \<open>Loading an ensemble or a sequence\<close>

text \<open>
  C10. \<^verbatim>\<open>load_ensemble(name)\<close> and \<^verbatim>\<open>load_sequence(name)\<close>, for a stored name, replace
  each of \<open>sample_rate\<close>, \<open>amplitude_dict\<close>, \<open>activation_config\<close> and \<open>laser_channel\<close>
  of the generator by the value that the loaded object stores, leave it unchanged where
  the stored value is \<^verbatim>\<open>None\<close>, and set the pointer \<open>current_ensemble\<close> or
  \<open>current_sequence\<close> to the loaded object.
\<close>

theorem load_overwrites_settings:
  "(saved_pulse_block_ensembles g ename = Some ens \<longrightarrow>
      sample_rate (load_ensemble ename g)
        = (case ens_sample_rate ens of None \<Rightarrow> sample_rate g | Some v \<Rightarrow> v) \<and>
      amplitude_dict (load_ensemble ename g)
        = (case ens_amplitude_dict ens of None \<Rightarrow> amplitude_dict g | Some v \<Rightarrow> v) \<and>
      activation_config (load_ensemble ename g)
        = (case ens_activation_config ens of None \<Rightarrow> activation_config g | Some v \<Rightarrow> v) \<and>
      laser_channel (load_ensemble ename g)
        = (case ens_laser_channel ens of None \<Rightarrow> laser_channel g | Some v \<Rightarrow> Some v) \<and>
      current_ensemble (load_ensemble ename g) = Some ens) \<and>
   (saved_pulse_sequences g sname = Some sq \<longrightarrow>
      sample_rate (load_sequence sname g)
        = (case seq_sample_rate sq of None \<Rightarrow> sample_rate g | Some v \<Rightarrow> v) \<and>
      amplitude_dict (load_sequence sname g)
        = (case seq_amplitude_dict sq of None \<Rightarrow> amplitude_dict g | Some v \<Rightarrow> v) \<and>
      activation_config (load_sequence sname g)
        = (case seq_activation_config sq of None \<Rightarrow> activation_config g | Some v \<Rightarrow> v) \<and>
      laser_channel (load_sequence sname g)
        = (case seq_laser_channel sq of None \<Rightarrow> laser_channel g | Some v \<Rightarrow> Some v) \<and>
      current_sequence (load_sequence sname g) = Some sq)"
  by (simp add: load_ensemble_def load_sequence_def Let_def split: option.splits)

theorem load_overwrites_settings_witness:
  "saved_pulse_block_ensembles (ex_generator_seq Idle True) ''E'' = Some (ex_ensemble True) \<and>
   saved_pulse_sequences (ex_generator_seq Idle True) ''S'' = Some (ex_sequence True) \<and>
   sample_rate (load_ensemble ''E'' (ex_generator_seq Idle True)) = 1000000 \<and>
   laser_channel (load_ensemble ''E'' (ex_generator_seq Idle True)) = Some ''d_ch1'' \<and>
   current_ensemble (load_ensemble ''E'' (ex_generator_seq Idle True)) = Some (ex_ensemble True) \<and>
   sample_rate (load_sequence ''S'' (ex_generator_seq Idle True)) = 2000000 \<and>
   activation_config (load_sequence ''S'' (ex_generator_seq Idle True)) = [''a_ch1'', ''d_ch1''] \<and>
   laser_channel (load_sequence ''S'' (ex_generator_seq Idle True)) = Some ''d_ch2'' \<and>
   current_sequence (load_sequence ''S'' (ex_generator_seq Idle True)) = Some (ex_sequence True)"
proof -
  have e: "saved_pulse_block_ensembles (ex_generator_seq Idle True) ''E'' = Some (ex_ensemble True)"
    by (simp add: ex_generator_seq_def ex_generator_def)
  have s: "saved_pulse_sequences (ex_generator_seq Idle True) ''S'' = Some (ex_sequence True)"
    by (simp add: ex_generator_seq_def ex_generator_def)
  have vals: "ens_sample_rate (ex_ensemble True) = Some 1000000"
    "ens_laser_channel (ex_ensemble True) = None"
    "seq_sample_rate (ex_sequence True) = Some 2000000"
    "seq_activation_config (ex_sequence True) = None"
    "seq_laser_channel (ex_sequence True) = Some ''d_ch2''"
    "laser_channel (ex_generator_seq Idle True) = Some ''d_ch1''"
    "activation_config (ex_generator_seq Idle True) = [''a_ch1'', ''d_ch1'']"
    by (simp_all add: ex_ensemble_def ex_sequence_def ex_generator_seq_def ex_generator_def)
  from load_overwrites_settings[of "ex_generator_seq Idle True" "''E''" "ex_ensemble True"
      "''S''" "ex_sequence True"] e s
  show ?thesis by (simp add: vals)
qed

subsection \<open>Predefined generator methods\<close>

text \<open>
  C9, as amended. For every name that is registered in \<^verbatim>\<open>generate_methods\<close>,
  \<^verbatim>\<open>generate_predefined_sequence\<close> invokes the callable of that name on the arguments;
  when the callable raises, the exception is not propagated: the failure is logged with
  the name and the function returns; when it returns, the signal
  \<^verbatim>\<open>sigPredefinedSequenceGenerated\<close> is emitted with the name.
\<close>

theorem generate_predefined_sequence_registered:
  assumes "generate_methods name = Some gen_method"
  shows "(\<forall>e g'. gen_method args g = (Inl e, g') \<longrightarrow>
            generate_predefined_sequence (Some generate_methods) name args g
              = (Inr (), g'\<lparr>log := log g' @ [Error_generation_failed name]\<rparr>)) \<and>
         (\<forall>u g'. gen_method args g = (Inr u, g') \<longrightarrow>
            generate_predefined_sequence (Some generate_methods) name args g
              = (Inr (), g'\<lparr>signals := signals g' @ [SigPredefinedSequenceGenerated name]\<rparr>))"
  using assms by (simp add: generate_predefined_sequence_def)

theorem generate_predefined_sequence_registered_witness:
  "ex_generate_methods ''broken'' = Some (\<lambda>args g. (Inl (ExternalError ''division by zero''), g)) \<and>
   ex_generate_methods ''idle'' = Some (\<lambda>args g. (Inr (), g)) \<and>
   generate_predefined_sequence (Some ex_generate_methods) ''broken'' [1, 2]
       (ex_generator_seq Idle True)
     = (Inr (), (ex_generator_seq Idle True)\<lparr>log := log (ex_generator_seq Idle True)
                                                  @ [Error_generation_failed ''broken'']\<rparr>) \<and>
   generate_predefined_sequence (Some ex_generate_methods) ''idle'' [1, 2]
       (ex_generator_seq Idle True)
     = (Inr (), (ex_generator_seq Idle True)\<lparr>signals := signals (ex_generator_seq Idle True)
                                                  @ [SigPredefinedSequenceGenerated ''idle'']\<rparr>)"
proof -
  have b: "ex_generate_methods ''broken''
             = Some (\<lambda>args g. (Inl (ExternalError ''division by zero''), g))"
    and i: "ex_generate_methods ''idle'' = Some (\<lambda>args g. (Inr (), g))"
    by (simp_all add: ex_generate_methods_def)
  from generate_predefined_sequence_registered[where generate_methods = ex_generate_methods
        and name = "''broken''" and args = "[1, 2]" and g = "ex_generator_seq Idle True", OF b]
    generate_predefined_sequence_registered[where generate_methods = ex_generate_methods
        and name = "''idle''" and args = "[1, 2]" and g = "ex_generator_seq Idle True", OF i]
    b i
  show ?thesis by simp
qed

text \<open>
  The claim C9 as it is stated, "for every name", fails for a name that is not
  registered: the lookup is outside the \<^verbatim>\<open>try\<close> block, and its KeyError reaches the
  caller.
\<close>

theorem generate_predefined_sequence_unregistered:
  "generate_predefined_sequence (Some ex_generate_methods) ''rabi'' [1, 2]
       (ex_generator_seq Idle True)
     = (Inl KeyError, ex_generator_seq Idle True)"
  by (simp add: generate_predefined_sequence_def ex_generate_methods_def)

subsection \<open>Loops that change a state\<close>

lemma sreturn_eq [simp]: "sreturn x s = (r, s') \<longleftrightarrow> r = Inr x \<and> s' = s"
  by (auto simp: sreturn_def)

lemma slift_eq [simp]: "slift m s = (r, s') \<longleftrightarrow> m = r \<and> s' = s"
  by (auto simp: slift_def)

lemma sbind_eq_Inr:
  "sbind m f s = (Inr y, s') \<longleftrightarrow> (\<exists>x s1. m s = (Inr x, s1) \<and> f x s1 = (Inr y, s'))"
  by (auto simp: sbind_def split: prod.splits sum.splits)

lemma sfoldM_Cons_Inr:
  "sfoldM f (x # xs) b s = (Inr b', s') \<longleftrightarrow>
     (\<exists>b1 s1. f x b s = (Inr b1, s1) \<and> sfoldM f xs b1 s1 = (Inr b', s'))"
  by (simp add: sbind_eq_Inr)

lemma sfoldM_append: "sfoldM f (xs @ ys) b s = sbind (sfoldM f xs b) (sfoldM f ys) s"
proof (induction xs arbitrary: b s)
  case Nil
  show ?case by (simp add: sbind_def sreturn_def)
next
  case (Cons x xs)
  show ?case
    by (simp add: Cons.IH sbind_def split: prod.splits sum.splits)
qed

lemma sbind_cong:
  "m s = m' s \<Longrightarrow> (\<And>x s1. f x s1 = f' x s1) \<Longrightarrow> sbind m f s = sbind m' f' s"
  by (auto simp: sbind_def split: prod.splits sum.splits)

lemma sfoldM_cong:
  "(\<And>x b s. x \<in> set xs \<Longrightarrow> f x b s = f' x b s) \<Longrightarrow> sfoldM f xs b s = sfoldM f' xs b s"
proof (induction xs arbitrary: b s)
  case Nil
  show ?case by simp
next
  case (Cons x xs)
  have "f x b s = f' x b s" by (rule Cons.prems) simp
  moreover have "sfoldM f xs b1 s1 = sfoldM f' xs b1 s1" for b1 s1
    by (rule Cons.IH) (simp add: Cons.prems)
  ultimately show ?case unfolding sfoldM.simps by (rule sbind_cong)
qed

lemma sfoldM_map: "sfoldM f (map p xs) b s = sfoldM (\<lambda>x. f (p x)) xs b s"
proof (induction xs arbitrary: b s)
  case Nil
  show ?case by simp
next
  case (Cons x xs)
  show ?case unfolding list.map sfoldM.simps by (rule sbind_cong) (simp_all add: Cons.IH)
qed

lemma sfoldM_nested:
  "sfoldM (\<lambda>x. sfoldM (g x) (h x)) xs b s =
   sfoldM (\<lambda>(x, y). g x y) (concat (map (\<lambda>x. map (Pair x) (h x)) xs)) b s"
proof (induction xs arbitrary: b s)
  case Nil
  show ?case by simp
next
  case (Cons x xs)
  have "sfoldM (\<lambda>(x, y). g x y) (map (Pair x) (h x)) b s = sfoldM (g x) (h x) b s"
    by (simp add: sfoldM_map)
  then show ?case
    unfolding list.map concat.simps sfoldM.simps sfoldM_append
    by (intro sbind_cong) (simp_all add: Cons.IH)
qed

lemma sample_elements_flat:
  "sample_elements W MF fo g ens ns ne tag wtf chunk loc h =
   sfoldM (\<lambda>(k, e). sample_element W MF fo g ens ns ne tag wtf chunk k e) (traversal ens) loc h"
proof -
  let ?body = "\<lambda>(k, e). sample_element W MF fo g ens ns ne tag wtf chunk k e"
  have blk: "sfoldM (\<lambda>rep_no. sfoldM (sample_element W MF fo g ens ns ne tag wtf chunk rep_no)
                 (element_list block)) [0..<nat (reps + 1)] b s =
     sfoldM ?body (block_traversal (block, reps)) b s" for block reps b s
    by (simp add: sfoldM_nested block_traversal_def)
  have flat: "sfoldM (\<lambda>br. sfoldM ?body (block_traversal br)) bl b s
                = sfoldM ?body (concat (map block_traversal bl)) b s" for bl b s
  proof (induction bl arbitrary: b s)
    case Nil
    show ?case by simp
  next
    case (Cons br bl)
    show ?case unfolding list.map concat.simps sfoldM.simps sfoldM_append
      by (intro sbind_cong) (simp_all add: Cons.IH)
  qed
  have "sample_elements W MF fo g ens ns ne tag wtf chunk loc h =
     sfoldM (\<lambda>br. sfoldM ?body (block_traversal br)) (block_list ens) loc h"
    unfolding sample_elements_def
    by (rule sfoldM_cong) (auto simp: blk)
  then show ?thesis by (simp add: flat traversal_def)
qed

subsection \<open>One element of the sampler\<close>

lemma foldM_invariant:
  assumes "\<And>x s s'. x \<in> set xs \<Longrightarrow> P s \<Longrightarrow> f x s = Inr s' \<Longrightarrow> P s'"
    and "P s" and "foldM f xs s = Inr s'"
  shows "P s'"
  using assms
proof (induction xs arbitrary: s)
  case Nil
  then show ?case by simp
next
  case (Cons x xs)
  from Cons.prems(3) obtain s1 where 1: "f x s = Inr s1" and 2: "foldM f xs s1 = Inr s'"
    unfolding foldM_Cons_Inr by blast
  have s1: "P s1" using Cons.prems(1)[of x s s1] Cons.prems(2) 1 by simp
  have step: "P t'" if "y \<in> set xs" "P t" "f y t = Inr t'" for y t t'
    using Cons.prems(1)[of y t t'] that by simp
  show ?case by (rule Cons.IH[OF step s1 2])
qed

lemma np_empty_Inr:
  "np_empty r c = Inr a \<longleftrightarrow>
     0 \<le> c \<and> a = \<lparr>ncols = nat c, rows = replicate r (replicate (nat c) None)\<rparr>"
  by (auto simp: np_empty_def)

lemma np_full_Inr: "np_full n v = Inr x \<longleftrightarrow> 0 \<le> n \<and> x = replicate (nat n) v"
  by (auto simp: np_full_def)

lemma setitem_row_shape:
  "setitem_row a i v = Inr a' \<Longrightarrow> ncols a' = ncols a \<and> length (rows a') = length (rows a)"
  by (auto simp: setitem_row_def ebind_eq_Inr split: if_splits)

lemma setitem_slice_shape:
  "setitem_slice a i lo hi v = Inr a' \<Longrightarrow>
     ncols a' = ncols a \<and> length (rows a') = length (rows a)"
  by (auto simp: setitem_slice_def ebind_eq_Inr split: if_splits prod.splits)

lemma fill_shape:
  fixes set_item :: "'a ndarray \<Rightarrow> nat \<Rightarrow> 'v \<Rightarrow> error + 'a ndarray"
    and ixs :: "(nat \<times> 'x) list"
  assumes "\<And>a i v a'. set_item a i v = Inr a' \<Longrightarrow>
             ncols a' = ncols a \<and> length (rows a') = length (rows a)"
    and "foldM (\<lambda>(i, x) a. ebind (val i x) (\<lambda>v. set_item a i v)) ixs a = Inr a'"
  shows "ncols a' = ncols a \<and> length (rows a') = length (rows a)"
  using assms(2)
proof (induction ixs arbitrary: a)
  case Nil
  then show ?case by simp
next
  case (Cons ix ixs)
  obtain i x where ix: "ix = (i, x)" by (cases ix)
  from Cons.prems ix obtain v a1 where "set_item a i v = Inr a1"
    and rest: "foldM (\<lambda>(i, x) a. ebind (val i x) (\<lambda>v. set_item a i v)) ixs a1 = Inr a'"
    unfolding foldM_Cons_Inr by (auto simp: ebind_eq_Inr)
  with assms(1) have "ncols a1 = ncols a \<and> length (rows a1) = length (rows a)" by blast
  with Cons.IH[OF rest] show ?case by simp
qed

lemma fill_digital_chunk_shape:
  "fill_digital_chunk n sts a = Inr a' \<Longrightarrow>
     ncols a' = ncols a \<and> length (rows a') = length (rows a)"
  unfolding fill_digital_chunk_def by (rule fill_shape[OF setitem_row_shape])

lemma fill_analog_chunk_shape:
  "fill_analog_chunk fo MF amp names T ps fs a = Inr a' \<Longrightarrow>
     ncols a' = ncols a \<and> length (rows a') = length (rows a)"
  unfolding fill_analog_chunk_def by (rule fill_shape[OF setitem_row_shape])

lemma fill_digital_whole_shape:
  "fill_digital_whole ind n sts a = Inr a' \<Longrightarrow>
     ncols a' = ncols a \<and> length (rows a') = length (rows a)"
  unfolding fill_digital_whole_def
  by (rule fill_shape[where set_item = "\<lambda>a i v. setitem_slice a i ind (ind + n) v"])
     (rule setitem_slice_shape)

lemma fill_analog_whole_shape:
  "fill_analog_whole fo MF amp names T ps ind n fs a = Inr a' \<Longrightarrow>
     ncols a' = ncols a \<and> length (rows a') = length (rows a)"
  unfolding fill_analog_whole_def
  by (rule fill_shape[where set_item = "\<lambda>a i v. setitem_slice a i ind (ind + n) v"])
     (rule setitem_slice_shape)


lemma call_writer_Inr:
  "call_writer W fmt c h = (Inr files, h') \<Longrightarrow> writer_calls h' = writer_calls h @ [c]"
  by (auto simp: call_writer_def split: option.splits prod.splits)

lemma call_writer_calls:
  "call_writer W fmt c h = (r, h') \<Longrightarrow>
     writer_calls h' = writer_calls h @ (if W fmt = None then [] else [c])"
  by (auto simp: call_writer_def split: option.splits prod.splits)

lemma chunk_step_Inr:
  assumes "chunk_step W MF fo g ens ns ne tag n T e loc h = (Inr loc', h')"
  obtains a0 d0 d a files where
    "np_empty (ens_analog_channels ens) n = Inr a0"
    "np_empty (ens_digital_channels ens) n = Inr d0"
    "fill_digital_chunk n (digital_high e) d0 = Inr d"
    "fill_analog_chunk fo MF (amplitude_dict g) (analog_channel_names g) T (parameters e)
       (pulse_function e) a0 = Inr a"
    "call_writer W (waveform_format g)
       (WaveformCall (ens_name ens @ tag) a d ns (is_first_chunk loc)
          (if element_count loc + 1 = ne then True else is_last_chunk loc)) h = (Inr files, h')"
    "loc' = loc\<lparr>element_count := element_count loc + 1,
               is_last_chunk := (if element_count loc + 1 = ne then True else is_last_chunk loc),
               analog_samples := a, digital_samples := d,
               created_files := Some files, is_first_chunk := False\<rparr>"
  using assms by (auto simp: chunk_step_def Let_def sbind_eq_Inr)

lemma whole_step_Inr:
  assumes "whole_step MF fo g n T e loc = Inr loc'"
  obtains d a where
    "fill_digital_whole (entry_ind loc) n (digital_high e) (digital_samples loc) = Inr d"
    "fill_analog_whole fo MF (amplitude_dict g) (analog_channel_names g) T (parameters e)
       (entry_ind loc) n (pulse_function e) (analog_samples loc) = Inr a"
    "loc' = loc\<lparr>digital_samples := d, analog_samples := a, entry_ind := entry_ind loc + n\<rparr>"
  using assms by (auto simp: whole_step_def ebind_eq_Inr)

lemma sample_element_Inr:
  assumes "sample_element W MF fo g ens ns ne tag wtf chunk k e loc h = (Inr loc', h')"
  shows "\<exists>n loc1. element_length_bins fo (sample_rate g) e k = Inr n \<and>
    (if chunk \<and> wtf
     then chunk_step W MF fo g ens ns ne tag n
            (time_array fo (offset_bin loc) n (sample_rate g)) e loc h = (Inr loc1, h')
     else whole_step MF fo g n (time_array fo (offset_bin loc) n (sample_rate g)) e loc
            = Inr loc1 \<and> h' = h) \<and>
    loc' = (if rotating_frame ens then loc1\<lparr>offset_bin := offset_bin loc1 + n\<rparr> else loc1)"
proof -
  from assms obtain n s1 loc1 s2 where
    n: "slift (element_length_bins fo (sample_rate g) e k) h = (Inr n, s1)"
    and step: "(if chunk \<and> wtf
                then chunk_step W MF fo g ens ns ne tag n
                       (time_array fo (offset_bin loc) n (sample_rate g)) e loc
                else slift (whole_step MF fo g n
                       (time_array fo (offset_bin loc) n (sample_rate g)) e loc)) s1
               = (Inr loc1, s2)"
    and res: "sreturn (if rotating_frame ens then loc1\<lparr>offset_bin := offset_bin loc1 + n\<rparr>
                      else loc1) s2 = (Inr loc', h')"
    unfolding sample_element_def Let_def sbind_eq_Inr by blast
  from n have n': "element_length_bins fo (sample_rate g) e k = Inr n" and s1: "s1 = h"
    by simp_all
  from res have r: "loc' = (if rotating_frame ens then loc1\<lparr>offset_bin := offset_bin loc1 + n\<rparr>
                      else loc1)" and s2: "s2 = h'"
    by auto
  show ?thesis
  proof (cases "chunk \<and> wtf")
    case True
    with step s1 s2 n' r show ?thesis by (intro exI[of _ n] exI[of _ loc1]) simp
  next
    case False
    with step s1 s2 n' r show ?thesis by (intro exI[of _ n] exI[of _ loc1]) auto
  qed
qed

text \<open>One element in the chunkwise mode: one call of the writer, with arrays of \<open>n\<close> columns.\<close>

lemma sample_element_chunk:
  assumes "sample_element W MF fo g ens ns ne tag True True k e loc h = (Inr loc', h')"
  shows "\<exists>n c. element_length_bins fo (sample_rate g) e k = Inr n \<and> 0 \<le> n \<and>
           writer_calls h' = writer_calls h @ [c] \<and>
           int (ncols (call_analog c)) = n \<and> int (ncols (call_digital c)) = n \<and>
           length (rows (call_analog c)) = ens_analog_channels ens \<and>
           length (rows (call_digital c)) = ens_digital_channels ens \<and>
           call_total c = ns \<and>
           offset_bin loc' = offset_bin loc + (if rotating_frame ens then n else 0) \<and>
           created_files loc' \<noteq> None"
proof -
  from sample_element_Inr[OF assms]
  obtain n loc1 where n: "element_length_bins fo (sample_rate g) e k = Inr n"
    and step: "chunk_step W MF fo g ens ns ne tag n
                 (time_array fo (offset_bin loc) n (sample_rate g)) e loc h = (Inr loc1, h')"
    and res: "loc' = (if rotating_frame ens then loc1\<lparr>offset_bin := offset_bin loc1 + n\<rparr>
                      else loc1)"
    by auto
  from step obtain a0 d0 d a files where
    a0: "np_empty (ens_analog_channels ens) n = Inr a0"
    and d0: "np_empty (ens_digital_channels ens) n = Inr d0"
    and d: "fill_digital_chunk n (digital_high e) d0 = Inr d"
    and a: "fill_analog_chunk fo MF (amplitude_dict g) (analog_channel_names g)
              (time_array fo (offset_bin loc) n (sample_rate g)) (parameters e)
              (pulse_function e) a0 = Inr a"
    and w: "call_writer W (waveform_format g)
              (WaveformCall (ens_name ens @ tag) a d ns (is_first_chunk loc)
                 (if element_count loc + 1 = ne then True else is_last_chunk loc)) h
            = (Inr files, h')"
    and loc1: "loc1 = loc\<lparr>element_count := element_count loc + 1,
               is_last_chunk := (if element_count loc + 1 = ne then True else is_last_chunk loc),
               analog_samples := a, digital_samples := d,
               created_files := Some files, is_first_chunk := False\<rparr>"
    by (rule chunk_step_Inr)
  from a0 have n0: "0 \<le> n" and a0s: "ncols a0 = nat n" "length (rows a0) = ens_analog_channels ens"
    by (auto simp: np_empty_Inr)
  from d0 have d0s: "ncols d0 = nat n" "length (rows d0) = ens_digital_channels ens"
    by (auto simp: np_empty_Inr)
  from fill_analog_chunk_shape[OF a] a0s
  have as: "ncols a = nat n" "length (rows a) = ens_analog_channels ens" by simp_all
  from fill_digital_chunk_shape[OF d] d0s
  have ds: "ncols d = nat n" "length (rows d) = ens_digital_channels ens" by simp_all
  let ?c = "WaveformCall (ens_name ens @ tag) a d ns (is_first_chunk loc)
                 (if element_count loc + 1 = ne then True else is_last_chunk loc)"
  have "writer_calls h' = writer_calls h @ [?c]" by (rule call_writer_Inr[OF w])
  moreover have "offset_bin loc' = offset_bin loc + (if rotating_frame ens then n else 0)"
    using res loc1 by simp
  moreover have "created_files loc' \<noteq> None" using res loc1 by simp
  ultimately show ?thesis using n n0 as ds by (intro exI[of _ n] exI[of _ ?c]) simp
qed

text \<open>One element in the monolithic mode: no call, the cursor moves by \<open>n\<close>.\<close>

lemma sample_element_whole:
  assumes "sample_element W MF fo g ens ns ne tag wtf chunk k e loc h = (Inr loc', h')"
    and "\<not> (chunk \<and> wtf)"
  shows "\<exists>n. element_length_bins fo (sample_rate g) e k = Inr n \<and> h' = h \<and>
           entry_ind loc' = entry_ind loc + n \<and>
           offset_bin loc' = offset_bin loc + (if rotating_frame ens then n else 0) \<and>
           ncols (analog_samples loc') = ncols (analog_samples loc) \<and>
           ncols (digital_samples loc') = ncols (digital_samples loc) \<and>
           length (rows (analog_samples loc')) = length (rows (analog_samples loc)) \<and>
           length (rows (digital_samples loc')) = length (rows (digital_samples loc)) \<and>
           created_files loc' = created_files loc"
proof -
  from sample_element_Inr[OF assms(1)] assms(2)
  obtain n loc1 where n: "element_length_bins fo (sample_rate g) e k = Inr n"
    and step: "whole_step MF fo g n (time_array fo (offset_bin loc) n (sample_rate g)) e loc
                 = Inr loc1 \<and> h' = h"
    and res: "loc' = (if rotating_frame ens then loc1\<lparr>offset_bin := offset_bin loc1 + n\<rparr>
                      else loc1)"
    by auto
  from step obtain d a where
    d: "fill_digital_whole (entry_ind loc) n (digital_high e) (digital_samples loc) = Inr d"
    and a: "fill_analog_whole fo MF (amplitude_dict g) (analog_channel_names g)
              (time_array fo (offset_bin loc) n (sample_rate g)) (parameters e)
              (entry_ind loc) n (pulse_function e) (analog_samples loc) = Inr a"
    and loc1: "loc1 = loc\<lparr>digital_samples := d, analog_samples := a,
                          entry_ind := entry_ind loc + n\<rparr>"
    by (auto elim: whole_step_Inr)
  from fill_digital_whole_shape[OF d] fill_analog_whole_shape[OF a] n step res loc1
  show ?thesis by (intro exI[of _ n]) simp
qed

subsection \<open>The loop of the sampler in its two modes\<close>

text \<open>The loop in the chunkwise mode: one call for each element, in the order of the visit.\<close>

lemma chunk_loop:
  assumes "sfoldM (\<lambda>(k, e). sample_element W MF fo g ens ns ne tag True True k e) xs loc h
             = (Inr loc', h')"
  shows "\<exists>bins calls.
           map Inr bins = map (\<lambda>(k, e). element_length_bins fo (sample_rate g) e k) xs \<and>
           (\<forall>n \<in> set bins. 0 \<le> n) \<and>
           writer_calls h' = writer_calls h @ calls \<and>
           map (\<lambda>c. int (ncols (call_analog c))) calls = bins \<and>
           map (\<lambda>c. int (ncols (call_digital c))) calls = bins \<and>
           (\<forall>c \<in> set calls. length (rows (call_analog c)) = ens_analog_channels ens \<and>
                            length (rows (call_digital c)) = ens_digital_channels ens \<and>
                            call_total c = ns) \<and>
           offset_bin loc' = offset_bin loc + (if rotating_frame ens then sum_list bins else 0) \<and>
           (xs \<noteq> [] \<longrightarrow> created_files loc' \<noteq> None) \<and>
           (xs = [] \<longrightarrow> loc' = loc)"
  using assms
proof (induction xs arbitrary: loc h)
  case Nil
  then show ?case by simp
next
  case (Cons ke xs)
  obtain k e where ke: "ke = (k, e)" by (cases ke)
  from Cons.prems ke obtain loc1 h1 where
    first: "sample_element W MF fo g ens ns ne tag True True k e loc h = (Inr loc1, h1)"
    and rest: "sfoldM (\<lambda>(k, e). sample_element W MF fo g ens ns ne tag True True k e) xs loc1 h1
                 = (Inr loc', h')"
    unfolding sfoldM_Cons_Inr by auto
  from sample_element_chunk[OF first] obtain n c where
    n: "element_length_bins fo (sample_rate g) e k = Inr n" "0 \<le> n"
    and c: "writer_calls h1 = writer_calls h @ [c]"
      "int (ncols (call_analog c)) = n" "int (ncols (call_digital c)) = n"
      "length (rows (call_analog c)) = ens_analog_channels ens"
      "length (rows (call_digital c)) = ens_digital_channels ens" "call_total c = ns"
    and o: "offset_bin loc1 = offset_bin loc + (if rotating_frame ens then n else 0)"
      "created_files loc1 \<noteq> None"
    by blast
  from Cons.IH[OF rest] obtain bins calls where
    b: "map Inr bins = map (\<lambda>(k, e). element_length_bins fo (sample_rate g) e k) xs"
      "\<forall>n \<in> set bins. 0 \<le> n"
    and w: "writer_calls h' = writer_calls h1 @ calls"
      "map (\<lambda>c. int (ncols (call_analog c))) calls = bins"
      "map (\<lambda>c. int (ncols (call_digital c))) calls = bins"
      "\<forall>c \<in> set calls. length (rows (call_analog c)) = ens_analog_channels ens \<and>
                            length (rows (call_digital c)) = ens_digital_channels ens \<and>
                            call_total c = ns"
    and o': "offset_bin loc' = offset_bin loc1 + (if rotating_frame ens then sum_list bins else 0)"
      "xs \<noteq> [] \<longrightarrow> created_files loc' \<noteq> None" "xs = [] \<longrightarrow> loc' = loc1"
    by blast
  have cf: "created_files loc' \<noteq> None" using o(2) o'(2,3) by (cases xs) auto
  show ?case
    apply (rule exI[of _ "n # bins"], rule exI[of _ "c # calls"])
    using n c o b w o'(1) cf ke by simp
qed

text \<open>The loop in the monolithic mode: no call, and the cursor moves by the sum of the bins.\<close>

lemma whole_loop:
  assumes "sfoldM (\<lambda>(k, e). sample_element W MF fo g ens ns ne tag wtf chunk k e) xs loc h
             = (Inr loc', h')"
    and "\<not> (chunk \<and> wtf)"
  shows "\<exists>bins.
           map Inr bins = map (\<lambda>(k, e). element_length_bins fo (sample_rate g) e k) xs \<and>
           h' = h \<and>
           entry_ind loc' = entry_ind loc + sum_list bins \<and>
           offset_bin loc' = offset_bin loc + (if rotating_frame ens then sum_list bins else 0) \<and>
           ncols (analog_samples loc') = ncols (analog_samples loc) \<and>
           ncols (digital_samples loc') = ncols (digital_samples loc) \<and>
           length (rows (analog_samples loc')) = length (rows (analog_samples loc)) \<and>
           length (rows (digital_samples loc')) = length (rows (digital_samples loc)) \<and>
           created_files loc' = created_files loc"
  using assms(1)
proof (induction xs arbitrary: loc h)
  case Nil
  then show ?case by simp
next
  case (Cons ke xs)
  obtain k e where ke: "ke = (k, e)" by (cases ke)
  from Cons.prems ke obtain loc1 h1 where
    first: "sample_element W MF fo g ens ns ne tag wtf chunk k e loc h = (Inr loc1, h1)"
    and rest: "sfoldM (\<lambda>(k, e). sample_element W MF fo g ens ns ne tag wtf chunk k e) xs loc1 h1
                 = (Inr loc', h')"
    unfolding sfoldM_Cons_Inr by auto
  from sample_element_whole[OF first assms(2)] obtain n where
    n: "element_length_bins fo (sample_rate g) e k = Inr n" "h1 = h"
      "entry_ind loc1 = entry_ind loc + n"
      "offset_bin loc1 = offset_bin loc + (if rotating_frame ens then n else 0)"
      "ncols (analog_samples loc1) = ncols (analog_samples loc)"
      "ncols (digital_samples loc1) = ncols (digital_samples loc)"
      "length (rows (analog_samples loc1)) = length (rows (analog_samples loc))"
      "length (rows (digital_samples loc1)) = length (rows (digital_samples loc))"
      "created_files loc1 = created_files loc"
    by blast
  from Cons.IH[OF rest] obtain bins where
    b: "map Inr bins = map (\<lambda>(k, e). element_length_bins fo (sample_rate g) e k) xs"
      "h' = h1"
      "entry_ind loc' = entry_ind loc1 + sum_list bins"
      "offset_bin loc' = offset_bin loc1 + (if rotating_frame ens then sum_list bins else 0)"
      "ncols (analog_samples loc') = ncols (analog_samples loc1)"
      "ncols (digital_samples loc') = ncols (digital_samples loc1)"
      "length (rows (analog_samples loc')) = length (rows (analog_samples loc1))"
      "length (rows (digital_samples loc')) = length (rows (digital_samples loc1))"
      "created_files loc' = created_files loc1"
    by blast
  show ?case
    apply (rule exI[of _ "n # bins"])
    using n b ke by simp
qed

lemma map_Inr_eq: "map Inr xs = map Inr ys \<Longrightarrow> xs = ys"
  by (simp add: inj_map_eq_map)

subsection \<open>The ensemble sampler as a whole\<close>

lemma delete_sampled_files_fields [simp]:
  "module_state (delete_sampled_files n g) = module_state g"
  "analog_channels (delete_sampled_files n g) = analog_channels g"
  "digital_channels (delete_sampled_files n g) = digital_channels g"
  "activation_config (delete_sampled_files n g) = activation_config g"
  "amplitude_dict (delete_sampled_files n g) = amplitude_dict g"
  "sample_rate (delete_sampled_files n g) = sample_rate g"
  "waveform_format (delete_sampled_files n g) = waveform_format g"
  "saved_pulse_block_ensembles (delete_sampled_files n g) = saved_pulse_block_ensembles g"
  "signals (delete_sampled_files n g) = signals g"
  "sampling_calls (delete_sampled_files n g) = sampling_calls g"
  "writer_calls (host (delete_sampled_files n g)) = writer_calls (host g)"
  by (simp_all add: delete_sampled_files_def Let_def)

lemma module_state_not_Idle [simp]: "(s \<noteq> Idle) = (s = Locked)"
  by (cases s) simp_all

lemma enter_sampling_fields:
  assumes "enter_sampling name wtf off tag g0 = (ip, g)"
  shows "ip = (module_state g0 = Locked)" "module_state g = Locked"
    "analog_channels g = analog_channels g0" "digital_channels g = digital_channels g0"
    "activation_config g = activation_config g0" "amplitude_dict g = amplitude_dict g0"
    "sample_rate g = sample_rate g0" "waveform_format g = waveform_format g0"
    "saved_pulse_block_ensembles g = saved_pulse_block_ensembles g0"
    "signals g = signals g0"
    "sampling_calls g = sampling_calls g0 @ [(name, off, tag)]"
    "writer_calls (host g) = writer_calls (host g0)"
  using assms by (auto simp: enter_sampling_def Let_def split: if_splits)

lemma analog_channel_names_cong:
  "activation_config g = activation_config g0 \<Longrightarrow> analog_channel_names g = analog_channel_names g0"
  by (simp add: analog_channel_names_def)

text \<open>A call that passes the check of the channel numbers and returns.\<close>

lemma sample_ensemble_Inr:
  assumes run: "sample_pulse_block_ensemble W MF fo name wtf chunk off tag g0 = (Inr r, g')"
    and saved: "saved_pulse_block_ensembles g0 name = Some ens"
    and match: "digital_channels g0 = ens_digital_channels ens"
      "analog_channels g0 = ens_analog_channels ens"
  shows "\<exists>ip g ns ne nst bins loc0 loc h.
     enter_sampling name wtf off tag g0 = (ip, g) \<and>
     analyze_block_ensemble fo (sample_rate g0) ens = Inr (ns, ne, nst, bins) \<and>
     initial_locals ens ns wtf chunk off = Inr loc0 \<and>
     sfoldM (\<lambda>(k, e). sample_element W MF fo g ens ns ne tag wtf chunk k e) (traversal ens)
       loc0 (host g) = (Inr loc, h) \<and>
     finish_sampling W ens name ns tag wtf chunk ip loc (g\<lparr>host := h\<rparr>) = (Inr r, g')"
proof -
  obtain ip g where e: "enter_sampling name wtf off tag g0 = (ip, g)"
    by (cases "enter_sampling name wtf off tag g0")
  note f = enter_sampling_fields[OF e]
  have s: "saved_pulse_block_ensembles g name = Some ens" using saved f by simp
  have m: "digital_channels g = ens_digital_channels ens"
    "analog_channels g = ens_analog_channels ens" using match f by simp_all
  from run e s m obtain ns ne nst bins where
    an: "analyze_block_ensemble fo (sample_rate g) ens = Inr (ns, ne, nst, bins)"
    by (cases "analyze_block_ensemble fo (sample_rate g) ens")
       (auto simp: sample_pulse_block_ensemble_def)
  from run e s m an obtain loc0 where il: "initial_locals ens ns wtf chunk off = Inr loc0"
    by (cases "initial_locals ens ns wtf chunk off :: error + 'a locals")
       (auto simp: sample_pulse_block_ensemble_def)
  from run e s m an il obtain loc h where
    lp: "sample_elements W MF fo g ens ns ne tag wtf chunk loc0 (host g) = (Inr loc, h)"
    and fin: "finish_sampling W ens name ns tag wtf chunk ip loc (g\<lparr>host := h\<rparr>) = (Inr r, g')"
    by (auto simp: sample_pulse_block_ensemble_def split: prod.splits sum.splits)
  from lp have "sfoldM (\<lambda>(k, e). sample_element W MF fo g ens ns ne tag wtf chunk k e)
       (traversal ens) loc0 (host g) = (Inr loc, h)"
    by (simp add: sample_elements_flat)
  with e an il fin f(7) show ?thesis by auto
qed

lemma unlock_and_announce_host [simp]:
  "host (unlock_and_announce ip n g) = host g"
  by (simp add: unlock_and_announce_def)

lemma finish_sampling_Inr:
  assumes "finish_sampling W ens name ns tag wtf chunk ip loc g = (Inr r, g')"
  shows "snd (snd (snd r)) = offset_bin loc"
    and "wtf \<Longrightarrow> chunk \<Longrightarrow> writer_calls (host g') = writer_calls (host g)"
    and "wtf \<Longrightarrow> \<not> chunk \<Longrightarrow> writer_calls (host g') = writer_calls (host g) @
           [WaveformCall (ens_name ens @ tag) (analog_samples loc) (digital_samples loc) ns
              True True]"
    and "\<not> wtf \<Longrightarrow> created_files loc \<noteq> None"
    and "wtf \<Longrightarrow> chunk \<Longrightarrow> created_files loc \<noteq> None"
  using assms
  by (auto simp: finish_sampling_def Let_def split: if_splits option.splits prod.splits sum.splits
      dest: call_writer_Inr)

lemma initial_locals_Inr:
  assumes "initial_locals ens ns wtf chunk off = Inr loc0"
  shows "offset_bin loc0 = off" "created_files loc0 = None" "entry_ind loc0 = 0"
    and "\<not> (chunk \<and> wtf) \<Longrightarrow> 0 \<le> ns \<and>
           analog_samples loc0 = \<lparr>ncols = nat ns,
              rows = replicate (ens_analog_channels ens) (replicate (nat ns) None)\<rparr> \<and>
           digital_samples loc0 = \<lparr>ncols = nat ns,
              rows = replicate (ens_digital_channels ens) (replicate (nat ns) None)\<rparr>"
  using assms
  by (auto simp: initial_locals_def ebind_eq_Inr np_empty_Inr split: if_splits)

text \<open>The early return on a mismatch of the channel numbers.\<close>

lemma mismatch_result:
  assumes "saved_pulse_block_ensembles g0 name = Some ens"
    and "digital_channels g0 \<noteq> ens_digital_channels ens
         \<or> analog_channels g0 \<noteq> ens_analog_channels ens"
  shows "fst (sample_pulse_block_ensemble W MF fo name write_to_file chunkwise off tag g0)
           = Inr (None, None, [''''], 0) \<and>
         module_state (snd (sample_pulse_block_ensemble W MF fo name write_to_file chunkwise
           off tag g0)) = Locked \<and>
         writer_calls (host (snd (sample_pulse_block_ensemble W MF fo name write_to_file
           chunkwise off tag g0))) = writer_calls (host g0)"
proof -
  obtain ip g where e: "enter_sampling name write_to_file off tag g0 = (ip, g)"
    by (cases "enter_sampling name write_to_file off tag g0")
  note f = enter_sampling_fields[OF e]
  have "saved_pulse_block_ensembles g name = Some ens"
    and "digital_channels g \<noteq> ens_digital_channels ens
         \<or> analog_channels g \<noteq> ens_analog_channels ens"
    using assms f by simp_all
  then show ?thesis
    using e f(2,12) by (auto simp: sample_pulse_block_ensemble_def)
qed

subsection \<open>Consistency of the two passes\<close>




subsection \<open>The early return and the return without writing\<close>

text \<open>
  C5. What the code does when the channel numbers of the ensemble differ from those of
  the generator: the call returns \<^verbatim>\<open>[], [], [''], 0\<close> and calls no writer, but the
  returned offset is 0 whatever the caller passed, and the module is locked afterwards,
  also when it was idle before: the early return comes after \<^verbatim>\<open>self.lock()\<close> and
  before every \<^verbatim>\<open>self.unlock()\<close>.
\<close>

theorem mismatch_early_return:
  assumes "saved_pulse_block_ensembles g0 name = Some ens"
    and "digital_channels g0 \<noteq> ens_digital_channels ens
         \<or> analog_channels g0 \<noteq> ens_analog_channels ens"
  shows "fst (sample_pulse_block_ensemble W MF fo name write_to_file chunkwise off tag g0)
           = Inr (None, None, [''''], 0) \<and>
         module_state (snd (sample_pulse_block_ensemble W MF fo name write_to_file chunkwise
           off tag g0)) = Locked \<and>
         writer_calls (host (snd (sample_pulse_block_ensemble W MF fo name write_to_file
           chunkwise off tag g0))) = writer_calls (host g0)"
  by (rule mismatch_result[OF assms])

text \<open>
  The failing input of C5: the caller passes \<open>offset_bin = 5\<close> to an idle generator,
  and gets the offset 0 and a locked generator.
\<close>

theorem mismatch_early_return_witness:
  "saved_pulse_block_ensembles
       (ex_generator Idle ex_ensemble_two_analog :: (real, real, nat) generator) ''E''
     = Some ex_ensemble_two_analog \<and>
   analog_channels (ex_generator Idle ex_ensemble_two_analog :: (real, real, nat) generator)
     \<noteq> ens_analog_channels ex_ensemble_two_analog \<and>
   module_state (ex_generator Idle ex_ensemble_two_analog :: (real, real, nat) generator) = Idle \<and>
   fst (sample_pulse_block_ensemble ex_writers ex_math_func real_ops ''E'' False True 5 ''''
          (ex_generator Idle ex_ensemble_two_analog :: (real, real, nat) generator))
     = Inr (None, None, [''''], 0) \<and>
   module_state (snd (sample_pulse_block_ensemble ex_writers ex_math_func real_ops ''E'' False
          True 5 '''' (ex_generator Idle ex_ensemble_two_analog :: (real, real, nat) generator)))
     = Locked"
proof -
  let ?G = "ex_generator Idle ex_ensemble_two_analog :: (real, real, nat) generator"
  have s: "saved_pulse_block_ensembles ?G ''E'' = Some ex_ensemble_two_analog"
    and m: "analog_channels ?G \<noteq> ens_analog_channels ex_ensemble_two_analog"
    and i: "module_state ?G = Idle"
    by (simp_all add: ex_generator_def ex_ensemble_two_analog_def ex_ensemble_def)
  from m have m': "digital_channels ?G \<noteq> ens_digital_channels ex_ensemble_two_analog
         \<or> analog_channels ?G \<noteq> ens_analog_channels ex_ensemble_two_analog" by simp
  from mismatch_early_return[OF s m', of ex_writers ex_math_func real_ops False True 5 "''''"]
    s m i
  show ?thesis by blast
qed

text \<open>
  C6. What the code does with \<^verbatim>\<open>write_to_file=False\<close> when the channel numbers agree:
  it never returns. \<^verbatim>\<open>created_files\<close> is bound on the paths that write only, so
  \<^verbatim>\<open>return analog_samples, digital_samples, created_files, offset_bin\<close> raises, when
  no earlier statement did.
\<close>

theorem no_write_never_returns:
  assumes saved: "saved_pulse_block_ensembles g0 name = Some ens"
    and match: "digital_channels g0 = ens_digital_channels ens"
      "analog_channels g0 = ens_analog_channels ens"
  shows "\<exists>e. fst (sample_pulse_block_ensemble W MF fo name False chunkwise off tag g0) = Inl e"
proof (cases "fst (sample_pulse_block_ensemble W MF fo name False chunkwise off tag g0)")
  case (Inl e)
  then show ?thesis by blast
next
  case (Inr r)
  then obtain g' where run:
    "sample_pulse_block_ensemble W MF fo name False chunkwise off tag g0 = (Inr r, g')"
    by (metis prod.collapse)
  from sample_ensemble_Inr[OF run saved match]
  obtain ip g ns ne loc0 loc h where
    il: "initial_locals ens ns False chunkwise off = Inr loc0"
    and lp: "sfoldM (\<lambda>(k, e). sample_element W MF fo g ens ns ne tag False chunkwise k e)
               (traversal ens) loc0 (host g) = (Inr loc, h)"
    and fin: "finish_sampling W ens name ns tag False chunkwise ip loc (g\<lparr>host := h\<rparr>)
                = (Inr r, g')"
    by blast
  have "\<not> (chunkwise \<and> False)" by simp
  from whole_loop[OF lp this] have "created_files loc = created_files loc0" by blast
  with initial_locals_Inr(2)[OF il] have "created_files loc = None" by simp
  moreover from finish_sampling_Inr(4)[OF fin] have "created_files loc \<noteq> None" by simp
  ultimately show ?thesis by simp
qed

text \<open>
  The failing input of C6: the exception is UnboundLocalError, and it comes after the
  generator was unlocked and the completion was announced.
\<close>

theorem no_write_never_returns_witness:
  "saved_pulse_block_ensembles (ex_generator_seq Idle False) ''E'' = Some (ex_ensemble False) \<and>
   digital_channels (ex_generator_seq Idle False) = ens_digital_channels (ex_ensemble False) \<and>
   analog_channels (ex_generator_seq Idle False) = ens_analog_channels (ex_ensemble False) \<and>
   (\<exists>e. fst (sample_pulse_block_ensemble ex_writers ex_math_func real_ops ''E'' False False 0
             '''' (ex_generator_seq Idle False)) = Inl e) \<and>
   fst (sample_pulse_block_ensemble ex_writers ex_math_func real_ops ''E'' False False 0 ''''
          (ex_generator_seq Idle False)) = Inl UnboundLocalError \<and>
   module_state (snd (sample_pulse_block_ensemble ex_writers ex_math_func real_ops ''E'' False
          False 0 '''' (ex_generator_seq Idle False))) = Idle \<and>
   signals (snd (sample_pulse_block_ensemble ex_writers ex_math_func real_ops ''E'' False
          False 0 '''' (ex_generator_seq Idle False))) = [SigSampleEnsembleComplete ''E'']"
proof -
  let ?G = "ex_generator_seq Idle False"
  have s: "saved_pulse_block_ensembles ?G ''E'' = Some (ex_ensemble False)"
    and m: "digital_channels ?G = ens_digital_channels (ex_ensemble False)"
      "analog_channels ?G = ens_analog_channels (ex_ensemble False)"
    by (simp_all add: ex_generator_seq_def ex_generator_def ex_ensemble_def)
  have ev: "fst (sample_pulse_block_ensemble ex_writers ex_math_func real_ops ''E'' False False 0
          '''' ?G) = Inl UnboundLocalError \<and>
   module_state (snd (sample_pulse_block_ensemble ex_writers ex_math_func real_ops ''E'' False
          False 0 '''' ?G)) = Idle \<and>
   signals (snd (sample_pulse_block_ensemble ex_writers ex_math_func real_ops ''E'' False
          False 0 '''' ?G)) = [SigSampleEnsembleComplete ''E'']"
    by code_simp
  from no_write_never_returns[OF s m, of ex_writers ex_math_func real_ops False 0 "''''"] s m ev
  show ?thesis by blast
qed

subsection \<open>The time vector and the running offset\<close>

lemma time_array_nth:
  "length (time_array fo off n sr) = nat n"
  "i < nat n \<Longrightarrow> time_array fo off n sr ! i = (of_int_f fo off + of_int_f fo (int i)) / sr"
  by (simp_all add: time_array_def np_arange_def)

lemma chunk_step_offset:
  "chunk_step W MF fo g ens ns ne tag n T e loc h = (Inr loc1, h') \<Longrightarrow>
     offset_bin loc1 = offset_bin loc"
  by (erule chunk_step_Inr) simp

lemma whole_step_offset:
  "whole_step MF fo g n T e loc = Inr loc1 \<Longrightarrow> offset_bin loc1 = offset_bin loc"
  by (erule whole_step_Inr) simp

text \<open>The loop in either mode: the offset that it leaves.\<close>

lemma loop_offset:
  assumes "sfoldM (\<lambda>(k, e). sample_element W MF fo g ens ns ne tag wtf chunk k e) xs loc h
             = (Inr loc', h')"
  shows "\<exists>bins. map Inr bins = map (\<lambda>(k, e). element_length_bins fo (sample_rate g) e k) xs \<and>
           offset_bin loc' = offset_bin loc + (if rotating_frame ens then sum_list bins else 0)"
proof (cases "chunk \<and> wtf")
  case True
  with assms have "sfoldM (\<lambda>(k, e). sample_element W MF fo g ens ns ne tag True True k e) xs
      loc h = (Inr loc', h')" by simp
  from chunk_loop[OF this] show ?thesis by blast
next
  case False
  from whole_loop[OF assms False] show ?thesis by blast
qed

text \<open>
  C2. The time vector of an element has \<open>length_bins\<close> entries
  \<open>t[i] = (offset_bin + i) / sample_rate\<close>. The body of the loop builds it from the
  running \<open>offset_bin\<close> of the local variables and hands it to the branch of its mode;
  the branch leaves \<open>offset_bin\<close> alone, and after it \<open>offset_bin\<close> is advanced by the
  length of the element when \<open>rotating_frame\<close> is true and unchanged when it is false.
  A call that passes the check of the channel numbers and returns, returns the offset of
  the caller plus the total number of bins when \<open>rotating_frame\<close> is true, and the
  offset of the caller when it is false.
\<close>

theorem running_offset:
  "(length (time_array fo t_off n sr) = nat n \<and>
    (\<forall>i < nat n. time_array fo t_off n sr ! i
                    = (of_int_f fo t_off + of_int_f fo (int i)) / sr)) \<and>
   (\<forall>loc' h'.
      sample_element W MF fo g ens ns ne tag write_to_file chunkwise k e loc h = (Inr loc', h')
      \<longrightarrow>
      (\<exists>m loc1.
         element_length_bins fo (sample_rate g) e k = Inr m \<and>
         (if chunkwise \<and> write_to_file
          then chunk_step W MF fo g ens ns ne tag m
                 (time_array fo (offset_bin loc) m (sample_rate g)) e loc h = (Inr loc1, h')
          else whole_step MF fo g m (time_array fo (offset_bin loc) m (sample_rate g)) e loc
                 = Inr loc1 \<and> h' = h) \<and>
         offset_bin loc1 = offset_bin loc \<and>
         offset_bin loc' = offset_bin loc + (if rotating_frame ens then m else 0))) \<and>
   (\<forall>a d files new_offset_bin g' total_samples total_elements total_states bins.
      saved_pulse_block_ensembles g0 name = Some ens \<longrightarrow>
      digital_channels g0 = ens_digital_channels ens \<longrightarrow>
      analog_channels g0 = ens_analog_channels ens \<longrightarrow>
      analyze_block_ensemble fo (sample_rate g0) ens
        = Inr (total_samples, total_elements, total_states, bins) \<longrightarrow>
      sample_pulse_block_ensemble W MF fo name write_to_file chunkwise off tag g0
        = (Inr (a, d, files, new_offset_bin), g') \<longrightarrow>
      new_offset_bin = off + (if rotating_frame ens then total_samples else 0))"
proof (intro conjI allI impI)
  show "length (time_array fo t_off n sr) = nat n" by (rule time_array_nth)
next
  fix i assume "i < nat n"
  then show "time_array fo t_off n sr ! i = (of_int_f fo t_off + of_int_f fo (int i)) / sr"
    by (rule time_array_nth)
next
  fix loc' h'
  assume run: "sample_element W MF fo g ens ns ne tag write_to_file chunkwise k e loc h
                 = (Inr loc', h')"
  from sample_element_Inr[OF run] obtain m loc1 where
    m: "element_length_bins fo (sample_rate g) e k = Inr m"
    and step: "if chunkwise \<and> write_to_file
          then chunk_step W MF fo g ens ns ne tag m
                 (time_array fo (offset_bin loc) m (sample_rate g)) e loc h = (Inr loc1, h')
          else whole_step MF fo g m (time_array fo (offset_bin loc) m (sample_rate g)) e loc
                 = Inr loc1 \<and> h' = h"
    and res: "loc' = (if rotating_frame ens then loc1\<lparr>offset_bin := offset_bin loc1 + m\<rparr>
                      else loc1)"
    by blast
  from step have o: "offset_bin loc1 = offset_bin loc"
    by (auto split: if_splits dest: chunk_step_offset whole_step_offset)
  with res have "offset_bin loc' = offset_bin loc + (if rotating_frame ens then m else 0)"
    by simp
  with m step o show "\<exists>m loc1.
         element_length_bins fo (sample_rate g) e k = Inr m \<and>
         (if chunkwise \<and> write_to_file
          then chunk_step W MF fo g ens ns ne tag m
                 (time_array fo (offset_bin loc) m (sample_rate g)) e loc h = (Inr loc1, h')
          else whole_step MF fo g m (time_array fo (offset_bin loc) m (sample_rate g)) e loc
                 = Inr loc1 \<and> h' = h) \<and>
         offset_bin loc1 = offset_bin loc \<and>
         offset_bin loc' = offset_bin loc + (if rotating_frame ens then m else 0)"
    by blast
next
  fix a d files new_offset_bin g' total_samples total_elements total_states bins
  assume saved: "saved_pulse_block_ensembles g0 name = Some ens"
    and match: "digital_channels g0 = ens_digital_channels ens"
      "analog_channels g0 = ens_analog_channels ens"
    and analysis: "analyze_block_ensemble fo (sample_rate g0) ens
        = Inr (total_samples, total_elements, total_states, bins)"
    and run: "sample_pulse_block_ensemble W MF fo name write_to_file chunkwise off tag g0
        = (Inr (a, d, files, new_offset_bin), g')"
  from sample_ensemble_Inr[OF run saved match] analysis
  obtain ip g loc0 loc h where
    e: "enter_sampling name write_to_file off tag g0 = (ip, g)"
    and il: "initial_locals ens total_samples write_to_file chunkwise off = Inr loc0"
    and lp: "sfoldM (\<lambda>(k, e). sample_element W MF fo g ens total_samples total_elements tag
                 write_to_file chunkwise k e) (traversal ens) loc0 (host g) = (Inr loc, h)"
    and fin: "finish_sampling W ens name total_samples tag write_to_file chunkwise ip loc
                (g\<lparr>host := h\<rparr>) = (Inr (a, d, files, new_offset_bin), g')"
    by auto
  note f = enter_sampling_fields[OF e]
  note an = analyze_block_ensemble_Inr[OF analysis]
  from loop_offset[OF lp] obtain bins' where
    b: "map Inr bins' = map (\<lambda>(k, e). element_length_bins fo (sample_rate g) e k) (traversal ens)"
    and o: "offset_bin loc = offset_bin loc0 + (if rotating_frame ens then sum_list bins' else 0)"
    by blast
  have "map Inr bins' = map (\<lambda>(k, e). element_length_bins fo (sample_rate g0) e k)
                           (traversal ens)" using b f(7) by simp
  also have "\<dots> = map Inr bins" by (rule an(2)[symmetric])
  finally have "bins' = bins" by (rule map_Inr_eq)
  moreover have "new_offset_bin = offset_bin loc" using finish_sampling_Inr(1)[OF fin] by simp
  ultimately show "new_offset_bin = off + (if rotating_frame ens then total_samples else 0)"
    using o initial_locals_Inr(1)[OF il] an(3) by simp
qed

theorem running_offset_witness:
  "length (time_array real_ops 5 2 1000000) = nat 2 \<and> 1 < nat 2 \<and>
   time_array real_ops 5 2 1000000 ! 1
     = (of_int_f real_ops 5 + of_int_f real_ops (int 1)) / 1000000 \<and>
   (\<exists>loc' h'.
      sample_element ex_writers ex_math_func real_ops (ex_generator_seq Idle True)
        (ex_ensemble True) 7 4 '''' True True 0 (element_list ex_block ! 0)
        (projr (initial_locals (ex_ensemble True) 7 True True 5))
        (host (ex_generator_seq Idle True)) = (Inr loc', h') \<and>
      element_length_bins real_ops (sample_rate (ex_generator_seq Idle True))
        (element_list ex_block ! 0) 0 = Inr 2 \<and>
      offset_bin loc' = 5 + 2) \<and>
   (\<exists>a d files g'.
      sample_pulse_block_ensemble ex_writers ex_math_func real_ops ''E'' True True 5 ''''
        (ex_generator_seq Idle True) = (Inr (a, d, files, 5 + 7), g')) \<and>
   (\<exists>a d files g'.
      sample_pulse_block_ensemble ex_writers ex_math_func real_ops ''E'' True True 5 ''''
        (ex_generator_seq Idle False) = (Inr (a, d, files, 5), g'))"
proof -
  let ?GT = "ex_generator_seq Idle True"
  let ?GF = "ex_generator_seq Idle False"
  let ?L0 = "projr (initial_locals (ex_ensemble True) 7 True True 5) :: real locals"
  let ?e = "element_list ex_block ! 0"
  note ro = running_offset[where fo = real_ops and W = ex_writers and MF = ex_math_func
      and t_off = 5 and n = 2 and sr = 1000000 and g = ?GT and ens = "ex_ensemble True"
      and ns = 7 and ne = 4 and tag = "''''" and write_to_file = True and chunkwise = True
      and k = 0 and e = ?e and loc = ?L0 and h = "host ?GT" and ?g0.0 = ?GT
      and name = "''E''" and off = 5]
  note ro' = running_offset[where fo = real_ops and W = ex_writers and MF = ex_math_func
      and ens = "ex_ensemble False" and tag = "''''" and write_to_file = True
      and chunkwise = True and ?g0.0 = ?GF and name = "''E''" and off = 5]
  have t: "length (time_array real_ops 5 2 1000000) = nat 2"
    "time_array real_ops 5 2 1000000 ! 1
       = (of_int_f real_ops 5 + of_int_f real_ops (int 1)) / 1000000"
    using ro[THEN conjunct1] by simp_all
  have "\<not> isl (fst (sample_element ex_writers ex_math_func real_ops ?GT (ex_ensemble True) 7 4
      '''' True True 0 ?e ?L0 (host ?GT)))"
    by code_simp
  then obtain loc' h' where el: "sample_element ex_writers ex_math_func real_ops ?GT
      (ex_ensemble True) 7 4 '''' True True 0 ?e ?L0 (host ?GT) = (Inr loc', h')"
    by (metis sum.collapse(2) prod.collapse)
  have n2: "element_length_bins real_ops (sample_rate ?GT) ?e 0 = Inr 2"
    by code_simp
  have o0: "offset_bin ?L0 = 5" by (simp add: initial_locals_def)
  from ro[THEN conjunct2, THEN conjunct1, rule_format, OF el] n2 o0
  have o: "offset_bin loc' = 5 + 2" by (auto simp: ex_ensemble_def)
  have sT: "saved_pulse_block_ensembles ?GT ''E'' = Some (ex_ensemble True)"
    and mT: "digital_channels ?GT = ens_digital_channels (ex_ensemble True)"
      "analog_channels ?GT = ens_analog_channels (ex_ensemble True)"
    and sF: "saved_pulse_block_ensembles ?GF ''E'' = Some (ex_ensemble False)"
    and mF: "digital_channels ?GF = ens_digital_channels (ex_ensemble False)"
      "analog_channels ?GF = ens_analog_channels (ex_ensemble False)"
    by (simp_all add: ex_generator_seq_def ex_generator_def ex_ensemble_def)
  have anT: "analyze_block_ensemble real_ops (sample_rate ?GT) (ex_ensemble True)
               = Inr (7, 4, 4, [2, 1, 2, 2])"
    and anF: "analyze_block_ensemble real_ops (sample_rate ?GF) (ex_ensemble False)
               = Inr (7, 4, 4, [2, 1, 2, 2])"
    by code_simp+
  have "\<not> isl (fst (sample_pulse_block_ensemble ex_writers ex_math_func real_ops ''E'' True True
      5 '''' ?GT))"
    by code_simp
  then obtain a d files x g1 where rT: "sample_pulse_block_ensemble ex_writers ex_math_func
      real_ops ''E'' True True 5 '''' ?GT = (Inr (a, d, files, x), g1)"
    by (metis sum.collapse(2) prod.collapse)
  have "\<not> isl (fst (sample_pulse_block_ensemble ex_writers ex_math_func real_ops ''E'' True True
      5 '''' ?GF))"
    by code_simp
  then obtain a' d' files' x' g2 where rF: "sample_pulse_block_ensemble ex_writers ex_math_func
      real_ops ''E'' True True 5 '''' ?GF = (Inr (a', d', files', x'), g2)"
    by (metis sum.collapse(2) prod.collapse)
  from ro[THEN conjunct2, THEN conjunct2, rule_format, OF sT mT anT rT]
  have xT: "x = 5 + 7" by (simp add: ex_ensemble_def)
  from ro'[THEN conjunct2, THEN conjunct2, rule_format, OF sF mF anF rF]
  have xF: "x' = 5" by (simp add: ex_ensemble_def)
  from t el n2 o rT rF xT xF show ?thesis by auto
qed

subsection \<open>A chunk and its place in the whole array\<close>









subsection \<open>Chunkwise and monolithic sampling\<close>








subsection \<open>Sampling while the module is locked\<close>

lemma same_but_trace_refl [simp]: "same_but_trace g g"
  by (simp add: same_but_trace_def)

lemma same_but_trace_trans:
  "same_but_trace g g1 \<Longrightarrow> same_but_trace g1 g2 \<Longrightarrow> same_but_trace g g2"
  by (simp add: same_but_trace_def)

lemma same_but_trace_updates [simp]:
  "same_but_trace g (g'\<lparr>host := h\<rparr>) = same_but_trace g g'"
  "same_but_trace g (g'\<lparr>log := l\<rparr>) = same_but_trace g g'"
  "same_but_trace g (g'\<lparr>sampling_calls := sc\<rparr>) = same_but_trace g g'"
  by (simp_all add: same_but_trace_def)

lemma delete_sampled_files_trace [simp]:
  "same_but_trace g (delete_sampled_files n g') = same_but_trace g g'"
  by (simp add: delete_sampled_files_def Let_def)

lemma enter_sampling_locked:
  assumes "module_state g0 = Locked" and "enter_sampling name wtf off tag g0 = (ip, g)"
  shows "ip" and "same_but_trace g0 g"
    and "sampling_calls g = sampling_calls g0 @ [(name, off, tag)]"
  using assms by (auto simp: enter_sampling_def Let_def split: if_splits)

lemma finish_sampling_in_progress:
  assumes "finish_sampling W ens name ns tag wtf chunk True loc g = (r, g')"
  shows "same_but_trace g g'" and "sampling_calls g' = sampling_calls g"
  using assms
  by (auto simp: finish_sampling_def unlock_and_announce_def Let_def
      split: if_splits option.splits prod.splits sum.splits)

text \<open>
  A call of the ensemble sampler on a locked module, whatever its outcome: the module stays
  locked, no signal is emitted, and only the host, the log and the history change.
\<close>

lemma sample_ensemble_locked:
  assumes locked: "module_state g0 = Locked"
    and run: "sample_pulse_block_ensemble W MF fo name wtf chunk off tag g0 = (r, g')"
  shows "same_but_trace g0 g'"
    and "sampling_calls g' = sampling_calls g0 @ [(name, off, tag)]"
proof -
  obtain ip g where e: "enter_sampling name wtf off tag g0 = (ip, g)"
    by (cases "enter_sampling name wtf off tag g0")
  note l = enter_sampling_locked[OF locked e]
  have "same_but_trace g0 g' \<and> sampling_calls g' = sampling_calls g0 @ [(name, off, tag)]"
  proof (cases "saved_pulse_block_ensembles g name")
    case None
    with run e l show ?thesis by (simp add: sample_pulse_block_ensemble_def)
  next
    case (Some ens)
    show ?thesis
    proof (cases "digital_channels g \<noteq> ens_digital_channels ens
                  \<or> analog_channels g \<noteq> ens_analog_channels ens")
      case True
      with run e l Some show ?thesis by (auto simp: sample_pulse_block_ensemble_def)
    next
      case False
      show ?thesis
      proof (cases "analyze_block_ensemble fo (sample_rate g) ens")
        case (Inl err)
        with run e l Some False show ?thesis by (auto simp: sample_pulse_block_ensemble_def)
      next
        case (Inr res)
        obtain ns ne nst bins where res: "res = (ns, ne, nst, bins)" by (cases res)
        show ?thesis
        proof (cases "initial_locals ens ns wtf chunk off :: error + 'a locals")
          case (Inl err)
          with run e l Some False Inr res show ?thesis
            by (auto simp: sample_pulse_block_ensemble_def)
        next
          case il: (Inr loc0)
          obtain rl h where lp: "sample_elements W MF fo g ens ns ne tag wtf chunk loc0 (host g)
                                  = (rl, h)"
            by (cases "sample_elements W MF fo g ens ns ne tag wtf chunk loc0 (host g)")
          show ?thesis
          proof (cases rl)
            case (Inl err)
            with run e l Some False Inr res il lp show ?thesis
              by (auto simp: sample_pulse_block_ensemble_def)
          next
            case lr: (Inr loc)
            with run e l(1) Some False Inr res il lp
            have fin: "finish_sampling W ens name ns tag wtf chunk True loc (g\<lparr>host := h\<rparr>)
                         = (r, g')"
              by (auto simp: sample_pulse_block_ensemble_def)
            from finish_sampling_in_progress[OF fin] l(2,3) show ?thesis
              by (auto intro: same_but_trace_trans simp: same_but_trace_def)
          qed
        qed
      qed
    qed
  qed
  then show "same_but_trace g0 g'"
    and "sampling_calls g' = sampling_calls g0 @ [(name, off, tag)]" by simp_all
qed

lemma sbind_cases:
  assumes "sbind m f s = (r, s')"
  obtains (raised) e where "m s = (Inl e, s')" "r = Inl e"
    | (continued) x s1 where "m s = (Inr x, s1)" "f x s1 = (r, s')"
  using assms by (auto simp: sbind_def split: prod.splits sum.splits)

lemma sfoldM_state_invariant:
  assumes step: "\<And>x b s r s'. P s \<Longrightarrow> f x b s = (r, s') \<Longrightarrow> P s'"
    and "P s" and "sfoldM f xs b s = (r, s')"
  shows "P s'"
  using assms(2,3)
proof (induction xs arbitrary: b s)
  case Nil
  then show ?case by simp
next
  case (Cons x xs)
  from Cons.prems(2) have "sbind (f x b) (sfoldM f xs) s = (r, s')" by simp
  then show ?case
  proof (cases rule: sbind_cases)
    case (raised e)
    with step[OF Cons.prems(1)] show ?thesis by blast
  next
    case (continued b1 s1)
    with step[OF Cons.prems(1)] have "P s1" by blast
    from Cons.IH[OF this continued(2)] show ?thesis .
  qed
qed

lemma locked_trace:
  "module_state g = Locked \<Longrightarrow> same_but_trace g g' \<Longrightarrow> module_state g' = Locked"
  by (simp add: same_but_trace_def)

lemma sample_distinct_step_locked:
  assumes "module_state g = Locked"
    and "sample_distinct_step W MF fo wtf chunk name sampled g = (r, g')"
  shows "same_but_trace g g'"
  using assms(2) unfolding sample_distinct_step_def
proof (cases rule: sbind_cases)
  case (raised e)
  then show ?thesis by auto
next
  case (continued ens g1)
  then have g1: "g1 = g" by auto
  from continued(2) show ?thesis
  proof (cases rule: sbind_cases)
    case (raised e)
    with g1 sample_ensemble_locked(1)[OF assms(1)] show ?thesis by blast
  next
    case (continued res g2)
    with g1 sample_ensemble_locked(1)[OF assms(1)] have "same_but_trace g g2" by blast
    with continued(2) show ?thesis by (cases res) auto
  qed
qed

lemma sample_rotating_step_locked:
  assumes "module_state g = Locked"
    and "sample_rotating_step W MF fo wtf chunk entry st g = (r, g')"
  shows "same_but_trace g g'"
proof -
  obtain ens p where entry: "entry = (ens, p)" by (cases entry)
  obtain idx off sampled lst where st: "st = (idx, off, sampled, lst)" by (cases st)
  from assms(2) entry st
  have "sbind (sample_pulse_block_ensemble W MF fo (ens_name ens) wtf chunk off
                (''_'' @ zfill 3 (str_nat idx)))
          (\<lambda>(dummy1, dummy2, files, offset_bin_return).
             sreturn (idx + 1, offset_bin_return,
                      sampled(ens_name ens @ ''_'' @ zfill 3 (str_nat idx) \<mapsto> files),
                      lst @ [step_dict files p])) g = (r, g')"
    by (simp add: sample_rotating_step_def Let_def)
  then show ?thesis
  proof (cases rule: sbind_cases)
    case (raised e)
    with sample_ensemble_locked(1)[OF assms(1)] show ?thesis by blast
  next
    case (continued res g2)
    with sample_ensemble_locked(1)[OF assms(1)] have "same_but_trace g g2" by blast
    with continued(2) show ?thesis by (cases res) auto
  qed
qed

text \<open>
  The sampling of the entries of a sequence on a locked module, whatever its outcome:
  the module stays locked and no signal is emitted.
\<close>

lemma sample_sequence_entries_locked:
  assumes locked: "module_state g = Locked"
    and run: "sample_sequence_entries W MF fo wtf chunk sq g = (r, g')"
  shows "same_but_trace g g'"
proof -
  let ?P = "\<lambda>s. module_state s = Locked \<and> same_but_trace g s"
  have P0: "?P g" using locked by simp
  have rot: "?P s'" if "?P s" "sample_rotating_step W MF fo wtf chunk x b s = (r', s')"
    for x b s r' s'
    using that sample_rotating_step_locked[of s W MF fo wtf chunk x b r' s']
    by (auto intro: same_but_trace_trans locked_trace)
  have dis: "?P s'" if "?P s" "sample_distinct_step W MF fo wtf chunk x b s = (r', s')"
    for x b s r' s'
    using that sample_distinct_step_locked[of s W MF fo wtf chunk x b r' s']
    by (auto intro: same_but_trace_trans locked_trace)
  show ?thesis
  proof (cases "seq_rotating_frame sq")
    case True
    with run have "sbind (sfoldM (sample_rotating_step W MF fo wtf chunk)
                    (ensemble_param_list sq) (0, 0, Map.empty, []))
             (\<lambda>(ensemble_index, offset, sampled, sequence_param_dict_list).
                sreturn (sampled, sequence_param_dict_list)) g = (r, g')"
      by (simp add: sample_sequence_entries_def)
    then show ?thesis
    proof (cases rule: sbind_cases)
      case (raised e)
      from sfoldM_state_invariant[where P = ?P, OF rot P0 raised(1)] show ?thesis by simp
    next
      case (continued x s1)
      from sfoldM_state_invariant[where P = ?P, OF rot P0 continued(1)]
      have "same_but_trace g s1" by simp
      with continued(2) show ?thesis by (cases x) auto
    qed
  next
    case False
    with run have "sbind (sfoldM (sample_distinct_step W MF fo wtf chunk)
                    (different_ensembles_dict sq) Map.empty)
             (\<lambda>sampled.
           sbind (slift (foldM (reuse_step sampled) (ensemble_param_list sq) []))
             (\<lambda>sequence_param_dict_list.
                sreturn (sampled, sequence_param_dict_list))) g = (r, g')"
      by (simp add: sample_sequence_entries_def)
    then show ?thesis
    proof (cases rule: sbind_cases)
      case (raised e)
      from sfoldM_state_invariant[where P = ?P, OF dis P0 raised(1)] show ?thesis by simp
    next
      case (continued x s1)
      from sfoldM_state_invariant[where P = ?P, OF dis P0 continued(1)]
      have "same_but_trace g s1" by simp
      with continued(2) show ?thesis
        by (auto simp: sbind_def split: prod.splits sum.splits)
    qed
  qed
qed

subsection \<open>The busy state\<close>

lemma save_sequence_fields:
  "module_state (save_sequence n sq g) = module_state g"
  "signals (save_sequence n sq g) = signals g @ [SigSequenceDictUpdated, SigCurrentSequenceUpdated]"
  "saved_pulse_sequences (save_sequence n sq g) = (saved_pulse_sequences g)(n \<mapsto> sq\<lparr>seq_name := n\<rparr>)"
  "sampling_calls (save_sequence n sq g) = sampling_calls g"
  "host (save_sequence n sq g) = host g"
  "sequence_format (save_sequence n sq g) = sequence_format g"
  by (simp_all add: save_sequence_def save_sequences_to_file_def Let_def)

lemma delete_sequence_files_trace [simp]:
  "same_but_trace g (delete_sequence_files n g)"
  "sampling_calls (delete_sequence_files n g) = sampling_calls g"
  by (simp_all add: delete_sequence_files_def Let_def same_but_trace_def)

text \<open>
  The runs of \<^verbatim>\<open>sample_pulse_sequence\<close> on an idle module: the generator \<open>g\<close> on which
  the entries are sampled is locked.
\<close>

lemma sample_pulse_sequence_idle:
  assumes idle: "module_state g0 = Idle"
    and run: "sample_pulse_sequence W MF fo sequence_name write_to_file chunkwise g0 = (r, g3)"
  obtains (unknown) "r = Inl KeyError" "signals g3 = signals g0"
    | (entries) e where "r = Inl e" "signals g3 = signals g0"
    | (writer) e where "r = Inl e"
        "signals g3 = signals g0 @ [SigSequenceDictUpdated, SigCurrentSequenceUpdated]"
    | (returned) "r = Inr ()" "module_state g3 = Idle"
        "signals g3 = signals g0 @ [SigSequenceDictUpdated, SigCurrentSequenceUpdated,
                                   SigSampleSequenceComplete sequence_name]"
proof -
  define g where "g = (if write_to_file
                      then delete_sequence_files sequence_name (g0\<lparr>module_state := Locked\<rparr>)
                      else g0\<lparr>module_state := Locked\<rparr>)"
  have locked: "module_state g = Locked"
    using delete_sequence_files_trace(1)[of "g0\<lparr>module_state := Locked\<rparr>" sequence_name]
    by (simp add: g_def same_but_trace_def)
  have sig: "signals g = signals g0"
    using delete_sequence_files_trace(1)[of "g0\<lparr>module_state := Locked\<rparr>" sequence_name]
    by (simp add: g_def same_but_trace_def)
  show ?thesis
  proof (cases "saved_pulse_sequences g sequence_name")
    case None
    with run idle have "r = Inl KeyError" "g3 = g"
      by (simp_all add: sample_pulse_sequence_def g_def Let_def)
    with sig unknown show ?thesis by simp
  next
    case (Some sq)
    obtain r1 g1 where ent:
      "sample_sequence_entries W MF fo write_to_file chunkwise sq g = (r1, g1)"
      by (cases "sample_sequence_entries W MF fo write_to_file chunkwise sq g")
    from sample_sequence_entries_locked[OF locked ent]
    have tr: "module_state g1 = Locked" "signals g1 = signals g0"
      using locked sig by (simp_all add: same_but_trace_def)
    show ?thesis
    proof (cases r1)
      case (Inl e)
      with run idle Some ent have "r = Inl e" "g3 = g1"
        by (simp_all add: sample_pulse_sequence_def g_def[symmetric] Let_def)
      with tr entries show ?thesis by simp
    next
      case (Inr res)
      obtain sampled lst where res: "res = (sampled, lst)" by (cases res)
      define g2 where "g2 = save_sequence sequence_name (sq\<lparr>sampled_ensembles := sampled\<rparr>) g1"
      obtain rw h where w:
        "call_writer W (sequence_format g2) (SequenceCall sequence_name lst) (host g2) = (rw, h)"
        by (cases "call_writer W (sequence_format g2) (SequenceCall sequence_name lst) (host g2)")
      have g2: "module_state g2 = Locked"
        "signals g2 = signals g0 @ [SigSequenceDictUpdated, SigCurrentSequenceUpdated]"
        using tr by (simp_all add: g2_def save_sequence_fields)
      show ?thesis
      proof (cases rw)
        case (Inl e)
        with run idle Some ent Inr res w have "r = Inl e" "g3 = g2\<lparr>host := h\<rparr>"
          by (simp_all add: sample_pulse_sequence_def g_def[symmetric] g2_def[symmetric] Let_def)
        with g2 writer show ?thesis by simp
      next
        case (Inr files)
        with run idle Some ent \<open>r1 = Inr res\<close> res w
        have "r = Inr ()"
          "g3 = g2\<lparr>host := h, log := log g2 @ [Info_time_sequence],
                   signals := signals g2 @ [SigSampleSequenceComplete sequence_name],
                   module_state := Idle\<rparr>"
          by (simp_all add: sample_pulse_sequence_def g_def[symmetric] g2_def[symmetric] Let_def)
        with g2 returned show ?thesis by simp
      qed
    qed
  qed
qed

text \<open>
  Claim C8, as the code has it. A call of \<^verbatim>\<open>sample_pulse_sequence\<close> on a locked module
  logs an error and returns, and changes nothing else. A call of
  \<^verbatim>\<open>sample_pulse_block_ensemble\<close> on a locked module is not rejected: the function takes
  the locked state as the sign that a sequence is being sampled, so it runs, neither locks
  nor unlocks, emits no signal, and leaves the settings and the saved assets as they are
  (it may write files and log). A call of \<^verbatim>\<open>sample_pulse_sequence\<close> on an idle module never
  emits \<^verbatim>\<open>sigSampleEnsembleComplete\<close>, whatever its outcome; when it returns, the module
  is idle again and the signals it has emitted are the two of \<^verbatim>\<open>save_sequence\<close> and one
  \<^verbatim>\<open>sigSampleSequenceComplete\<close>.
\<close>

theorem busy_handling:
  "(module_state g = Locked \<longrightarrow>
      sample_pulse_sequence W MF fo sequence_name write_to_file chunkwise g =
        (Inr (), g\<lparr>log := log g @ [Error_busy sequence_name]\<rparr>)) \<and>
   (module_state g = Locked \<and>
    sample_pulse_block_ensemble W MF fo ensemble_name write_to_file chunkwise offset name_tag g =
      (r, g') \<longrightarrow>
      module_state g' = Locked \<and> signals g' = signals g \<and> same_but_trace g g') \<and>
   (module_state g = Idle \<and>
    sample_pulse_sequence W MF fo sequence_name write_to_file chunkwise g = (r2, g2) \<longrightarrow>
      (\<exists>new. signals g2 = signals g @ new \<and>
             (\<forall>n. SigSampleEnsembleComplete n \<notin> set new) \<and>
             (r2 = Inr () \<longrightarrow>
                module_state g2 = Idle \<and>
                new = [SigSequenceDictUpdated, SigCurrentSequenceUpdated,
                       SigSampleSequenceComplete sequence_name])))"
proof (intro conjI impI)
  assume "module_state g = Locked"
  then show "sample_pulse_sequence W MF fo sequence_name write_to_file chunkwise g =
        (Inr (), g\<lparr>log := log g @ [Error_busy sequence_name]\<rparr>)"
    by (simp add: sample_pulse_sequence_def)
next
  assume a: "module_state g = Locked \<and>
    sample_pulse_block_ensemble W MF fo ensemble_name write_to_file chunkwise offset name_tag g =
      (r, g')"
  then have tr: "same_but_trace g g'" using sample_ensemble_locked(1) by blast
  with a show "module_state g' = Locked" by (simp add: same_but_trace_def)
  from tr show "signals g' = signals g" by (simp add: same_but_trace_def)
  from tr show "same_but_trace g g'" .
next
  assume a: "module_state g = Idle \<and>
    sample_pulse_sequence W MF fo sequence_name write_to_file chunkwise g = (r2, g2)"
  then have idle: "module_state g = Idle"
    and run: "sample_pulse_sequence W MF fo sequence_name write_to_file chunkwise g = (r2, g2)"
    by simp_all
  from idle run show "\<exists>new. signals g2 = signals g @ new \<and>
             (\<forall>n. SigSampleEnsembleComplete n \<notin> set new) \<and>
             (r2 = Inr () \<longrightarrow>
                module_state g2 = Idle \<and>
                new = [SigSequenceDictUpdated, SigCurrentSequenceUpdated,
                       SigSampleSequenceComplete sequence_name])"
  proof (cases rule: sample_pulse_sequence_idle)
    case unknown
    then show ?thesis by (intro exI[of _ "[]"]) simp
  next
    case (entries e)
    then show ?thesis by (intro exI[of _ "[]"]) simp
  next
    case (writer e)
    then show ?thesis
      by (intro exI[of _ "[SigSequenceDictUpdated, SigCurrentSequenceUpdated]"]) simp
  next
    case returned
    then show ?thesis
      by (intro exI[of _ "[SigSequenceDictUpdated, SigCurrentSequenceUpdated,
                           SigSampleSequenceComplete sequence_name]"]) simp
  qed
qed

theorem busy_handling_witness:
  "module_state (ex_generator_seq Locked False) = Locked \<and>
   sample_pulse_sequence ex_writers ex_math_func real_ops ''S'' True False
     (ex_generator_seq Locked False) =
     (Inr (), (ex_generator_seq Locked False)
                \<lparr>log := log (ex_generator_seq Locked False) @ [Error_busy ''S'']\<rparr>) \<and>
   module_state (snd (sample_pulse_block_ensemble ex_writers ex_math_func real_ops ''E''
                        True False 0 '''' (ex_generator_seq Locked False))) = Locked \<and>
   signals (snd (sample_pulse_block_ensemble ex_writers ex_math_func real_ops ''E''
                   True False 0 '''' (ex_generator_seq Locked False))) = [] \<and>
   module_state (ex_generator_seq Idle False) = Idle \<and>
   fst (sample_pulse_sequence ex_writers ex_math_func real_ops ''S'' True False
          (ex_generator_seq Idle False)) = Inr () \<and>
   module_state (snd (sample_pulse_sequence ex_writers ex_math_func real_ops ''S'' True False
                        (ex_generator_seq Idle False))) = Idle \<and>
   signals (snd (sample_pulse_sequence ex_writers ex_math_func real_ops ''S'' True False
                   (ex_generator_seq Idle False))) =
     [SigSequenceDictUpdated, SigCurrentSequenceUpdated, SigSampleSequenceComplete ''S'']"
proof -
  let ?L = "ex_generator_seq Locked False :: (real, real, nat) generator"
  let ?I = "ex_generator_seq Idle False :: (real, real, nat) generator"
  let ?e = "sample_pulse_block_ensemble ex_writers ex_math_func real_ops ''E''
              True False 0 '''' ?L"
  let ?s = "sample_pulse_sequence ex_writers ex_math_func real_ops ''S'' True False ?I"
  have L: "module_state ?L = Locked" "signals ?L = []"
    by (simp_all add: ex_generator_seq_def ex_generator_def)
  have I: "module_state ?I = Idle" "signals ?I = []"
    by (simp_all add: ex_generator_seq_def ex_generator_def)
  have "\<not> isl (fst ?s)" by code_simp
  then have r: "fst ?s = Inr ()" by (cases "fst ?s") simp_all
  note T = busy_handling[where W = ex_writers and MF = ex_math_func and fo = real_ops
      and sequence_name = "''S''" and write_to_file = True and chunkwise = False
      and ensemble_name = "''E''" and offset = 0 and name_tag = "''''"]
  from T[where g = ?L, THEN conjunct1, rule_format, OF L(1)]
  have c1: "sample_pulse_sequence ex_writers ex_math_func real_ops ''S'' True False ?L =
              (Inr (), ?L\<lparr>log := log ?L @ [Error_busy ''S'']\<rparr>)" .
  from T[where g = ?L and r = "fst ?e" and g' = "snd ?e", THEN conjunct2, THEN conjunct1,
      rule_format] L
  have c2: "module_state (snd ?e) = Locked" "signals (snd ?e) = []" by simp_all
  from r have run: "?s = (Inr (), snd ?s)" by (metis prod.collapse)
  from T[where g = ?I and ?r2.0 = "Inr ()" and ?g2.0 = "snd ?s", THEN conjunct2, THEN conjunct2,
      rule_format, OF conjI, OF I(1) run] I(2)
  have c3: "module_state (snd ?s) = Idle"
    "signals (snd ?s) =
       [SigSequenceDictUpdated, SigCurrentSequenceUpdated, SigSampleSequenceComplete ''S'']"
    by auto
  from L(1) c1 c2 I(1) r c3 show ?thesis by simp
qed

text \<open>
  A call of \<^verbatim>\<open>sample_pulse_block_ensemble\<close> while the module is locked that is not
  rejected: it returns the name of the file and the new offset, and has called the writer.
\<close>

theorem busy_ensemble_call_not_rejected:
  "module_state (ex_generator_seq Locked True) = Locked \<and>
   fst (sample_pulse_block_ensemble ex_writers ex_math_func real_ops ''E'' True False 0 ''''
          (ex_generator_seq Locked True)) = Inr (None, None, [''E_ch1.wfmx''], 7) \<and>
   length (writer_calls (host (snd (sample_pulse_block_ensemble ex_writers ex_math_func
             real_ops ''E'' True False 0 '''' (ex_generator_seq Locked True))))) = 1 \<and>
   log (snd (sample_pulse_block_ensemble ex_writers ex_math_func
             real_ops ''E'' True False 0 '''' (ex_generator_seq Locked True))) =
     [Info_time_ensemble_whole]"
  by code_simp

subsection \<open>Sequences without a rotating frame\<close>




text \<open>
  The dictionary of a step holds the files under the key \<^verbatim>\<open>'name'\<close>, unless a step
  parameter of that name overwrites them, and the step parameters under their keys.
\<close>

lemma map_of_fold_update:
  "map_of (fold (\<lambda>(k, v). AList.update k (f v)) ps al) k' =
     (case map_of (rev ps) k' of None \<Rightarrow> map_of al k' | Some v \<Rightarrow> Some (f v))"
proof (induction ps arbitrary: al)
  case Nil
  show ?case by simp
next
  case (Cons a ps)
  obtain k v where a: "a = (k, v)" by (cases a)
  show ?case
    by (simp add: a Cons.IH update_conv' map_add_def split: option.splits)
qed

lemma step_dict_name:
  "''name'' \<notin> fst ` set seq_param \<Longrightarrow>
     map_of (step_dict files seq_param) ''name'' = Some (Files files)"
proof -
  assume "''name'' \<notin> fst ` set seq_param"
  then have "map_of (rev seq_param) ''name'' = None"
    by (simp add: map_of_eq_None_iff)
  then show ?thesis by (simp add: step_dict_def map_of_fold_update)
qed





end
